theory Spec2Isabelle
  imports Main
begin

text \<open>
  A shallow embedding of the run orchestration code of the assistant tool: the equality
  of assistant configurations (\<^verbatim>\<open>assistant_config.py\<close>), the translation of
  provider stream events into lifecycle signals (\<^verbatim>\<open>stream_event_handler.py\<close>), and
  the main window's processing of inputs, attachments, run signals and scheduled tasks
  (\<^verbatim>\<open>main_window.py\<close>). Effects are explicit: a callback returns the new state, the
  signals it emitted and the exception it raised, if any. Calls into collaborators
  whose code is outside the modelled files are parameters of the model.
\<close>

section \<open>AssistantConfig: equality of configurations\<close>

text \<open>
  \<^verbatim>\<open>assistant_config.py\<close>, class \<^verbatim>\<open>AssistantConfig\<close>. The record has the
  attributes that \<^verbatim>\<open>__init__\<close> sets. A value of \<^verbatim>\<open>knowledge_files\<close> is a
  dict from file path to file id or \<^verbatim>\<open>None\<close>; \<^verbatim>\<open>assistant_id\<close> is a string or
  \<^verbatim>\<open>None\<close>. The entries of \<^verbatim>\<open>selected_functions\<close> (function specifications)
  and of \<^verbatim>\<open>config_data\<close> are values of a type \<open>'j\<close> that is left open; Python's
  \<^verbatim>\<open>==\<close> on them is read as equality of \<open>'j\<close>.
\<close>

record 'j assistant_config =
  name :: string
  config_data :: "string \<rightharpoonup> 'j"
  instructions :: string
  assistant_id :: "string option"
  ai_client_type :: string
  model :: string
  knowledge_files :: "string \<rightharpoonup> string option"
  selected_functions :: "'j list"
  function_configs :: "'j list"
  knowledge_retrieval :: bool
  code_interpreter :: bool
  output_folder_path :: string
  assistant_type :: string

text \<open>The right operand of \<^verbatim>\<open>==\<close>: an \<^verbatim>\<open>AssistantConfig\<close> or any other object.\<close>

datatype ('j, 'o) py_object =
  AssistantConfigObj "'j assistant_config"
| OtherObj 'o

text \<open>What \<^verbatim>\<open>__eq__\<close> returns: the singleton \<^verbatim>\<open>NotImplemented\<close> or a truth value.\<close>

datatype eq_result = NotImplemented | Truth bool

fun assistant_config_eq :: "'j assistant_config \<Rightarrow> ('j, 'o) py_object \<Rightarrow> eq_result" where
  "assistant_config_eq self (OtherObj x) = NotImplemented"
| "assistant_config_eq self (AssistantConfigObj other) =
     Truth (name self = name other \<and>
            instructions self = instructions other \<and>
            assistant_id self = assistant_id other \<and>
            ai_client_type self = ai_client_type other \<and>
            model self = model other \<and>
            knowledge_files self = knowledge_files other \<and>
            selected_functions self = selected_functions other \<and>
            knowledge_retrieval self = knowledge_retrieval other \<and>
            code_interpreter self = code_interpreter other)"

text \<open>A configuration for concrete comparisons.\<close>

definition example_config :: "bool assistant_config" where
  "example_config =
     \<lparr>name = ''A'', config_data = Map.empty, instructions = ''be brief'',
      assistant_id = Some ''asst_1'', ai_client_type = ''OPEN_AI'', model = ''gpt-4'',
      knowledge_files = [''notes.txt'' \<mapsto> None], selected_functions = [True],
      function_configs = [True], knowledge_retrieval = False, code_interpreter = True,
      output_folder_path = ''/home/u/output'', assistant_type = ''assistant''\<rparr>"

section \<open>Exceptions\<close>

text \<open>
  The Python exceptions the modelled code can raise itself, and \<open>CollaboratorError\<close>
  for an exception raised inside a collaborator (the provider client, the conversation
  thread client, the sidebar).
\<close>

datatype error = AttributeError | TypeError | KeyError | UnboundLocalError | ValueError
  | CollaboratorError

section \<open>StreamEventHandler: provider events to lifecycle signals\<close>

text \<open>
  The callbacks of \<^verbatim>\<open>AssistantClientCallbacks\<close> that the handler invokes, with their
  arguments: \<^verbatim>\<open>on_run_start(name, run_id, time, user_request)\<close>,
  \<^verbatim>\<open>on_run_update(name, run_id, status, thread_name, is_first_message, message)\<close>
  (the last two default to \<^verbatim>\<open>False\<close> and \<^verbatim>\<open>None\<close>) and
  \<^verbatim>\<open>on_run_end(name, run_id, time, thread_name)\<close>. The time stamp
  \<^verbatim>\<open>str(datetime.now())\<close> is left out.
\<close>

datatype signal =
    OnRunStart string string string
  | OnRunUpdate string string string string bool "string option"
  | OnRunEnd string string string

text \<open>
  What the handler reads from the conversation thread client: the thread name of a
  thread id (\<^verbatim>\<open>get_thread_name_by_id\<close>) and the content of the last text message of
  the user in a thread; \<open>None\<close> when there is no such message, where
  \<^verbatim>\<open>get_last_text_message("user").content\<close> raises \<^verbatim>\<open>AttributeError\<close>.
\<close>

record conversation_store =
  get_thread_name_by_id :: "string \<Rightarrow> string"
  last_user_text :: "string \<Rightarrow> string option"

text \<open>
  The attributes of \<^verbatim>\<open>StreamEventHandler\<close> that the callbacks read or write
  (\<^verbatim>\<open>self._name\<close>, \<^verbatim>\<open>self._is_first_message\<close>, ...), and the id of the run the
  stream belongs to (\<^verbatim>\<open>self.current_run.id\<close>). The handles \<^verbatim>\<open>_parent\<close> and
  \<^verbatim>\<open>_conversation_thread_client\<close> and the number \<^verbatim>\<open>_timeout\<close> are passed
  through only.

  The run is taken to be set: the callbacks are those invoked once the provider has
  announced the run, so that \<^verbatim>\<open>self.current_run\<close> is not \<^verbatim>\<open>None\<close> where a
  callback reads it. A stream that ends before any run event has arrived, where
  reading \<^verbatim>\<open>self.current_run.id\<close> raises \<^verbatim>\<open>AttributeError\<close> and the callback
  sends nothing, is outside the model.
\<close>

record stream_event_handler =
  self_name :: string
  self_is_first_message :: bool
  self_is_started :: bool
  self_is_submit_tool_call :: bool
  self_thread_name :: string
  self_thread_id :: string
  current_run_id :: string

text \<open>\<^verbatim>\<open>__init__(parent, thread_id, is_submit_tool_call=False, timeout=None)\<close>.\<close>

definition init ::
  "conversation_store \<Rightarrow> string \<Rightarrow> string \<Rightarrow> string \<Rightarrow> bool \<Rightarrow> stream_event_handler" where
  "init store parent_name tid run_id submit =
     \<lparr>self_name = parent_name, self_is_first_message = True, self_is_started = False,
      self_is_submit_tool_call = submit, self_thread_name = get_thread_name_by_id store tid,
      self_thread_id = tid, current_run_id = run_id\<rparr>"

text \<open>
  One constructor for each callback the provider's stream invokes on the handler, in
  the order of the source. \<open>OnMessageDone\<close> carries the complete message and
  \<open>OnTextDelta\<close> the value of the delta. \<open>OnToolCallDelta\<close> carries
  \<^verbatim>\<open>delta.type\<close> and whether \<^verbatim>\<open>delta.function\<close> is set. \<open>OnToolCallDone\<close> carries the type of
  \<^verbatim>\<open>current_run.required_action\<close> (\<open>None\<close> when the run has no required action) and
  the callbacks that the stream opened by the submission of the tool outputs invokes.
\<close>

datatype event =
    OnException | OnTimeout | OnEnd
  | OnMessageCreated | OnMessageDelta | OnMessageDone string
  | OnTextCreated | OnTextDelta string | OnTextDone
  | OnToolCallCreated | OnToolCallDelta string bool
  | OnToolCallDone "string option" "event list"

text \<open>A callback returns the handler, the signals it emitted and the exception raised.\<close>

type_synonym outcome = "stream_event_handler \<times> signal list \<times> error option"

definition on_end :: "stream_event_handler \<Rightarrow> outcome" where
  "on_end h =
     (if \<not> self_is_submit_tool_call h
      then (h, [OnRunEnd (self_name h) (current_run_id h) (self_thread_name h)], None)
      else (h, [], None))"

definition on_message_done :: "stream_event_handler \<Rightarrow> string \<Rightarrow> outcome" where
  "on_message_done h message =
     (h, [OnRunUpdate (self_name h) (current_run_id h) ''completed'' (self_thread_name h)
            False None], None)"

definition on_text_created :: "conversation_store \<Rightarrow> stream_event_handler \<Rightarrow> outcome" where
  "on_text_created store h =
     (if \<not> self_is_started h \<and> \<not> self_is_submit_tool_call h
      then (case last_user_text store (self_thread_name h) of
              None \<Rightarrow> (h, [], Some AttributeError)
            | Some user_request \<Rightarrow>
                (h\<lparr>self_is_started := True\<rparr>,
                 [OnRunStart (self_name h) (current_run_id h) user_request], None))
      else (h, [], None))"

definition on_text_delta :: "stream_event_handler \<Rightarrow> string \<Rightarrow> outcome" where
  "on_text_delta h v =
     (h\<lparr>self_is_first_message := False\<rparr>,
      [OnRunUpdate (self_name h) (current_run_id h) ''streaming'' (self_thread_name h)
         (self_is_first_message h) (Some v)], None)"

definition on_tool_call_created :: "conversation_store \<Rightarrow> stream_event_handler \<Rightarrow> outcome" where
  "on_tool_call_created store h =
     (if \<not> self_is_started h \<and> \<not> self_is_submit_tool_call h
      then (case last_user_text store (self_thread_name h) of
              None \<Rightarrow> (h, [], Some AttributeError)
            | Some user_request \<Rightarrow>
                (h\<lparr>self_is_started := True\<rparr>,
                 [OnRunStart (self_name h) (current_run_id h) user_request], None))
      else (h, [], None))"

text \<open>
  \<^verbatim>\<open>on_tool_call_delta\<close> only logs; for a delta of type \<^verbatim>\<open>function\<close> it reads
  \<^verbatim>\<open>delta.function.name\<close>, which raises when the delta has no function.
\<close>

definition on_tool_call_delta :: "stream_event_handler \<Rightarrow> string \<Rightarrow> bool \<Rightarrow> outcome" where
  "on_tool_call_delta h delta_type has_function =
     (if delta_type = ''function'' \<and> \<not> has_function then (h, [], Some AttributeError)
      else (h, [], None))"

text \<open>
  \<open>on_event\<close> dispatches one callback; \<open>until_done\<close> is the stream invoking the
  callbacks in order. A callback that raises leaves the handler as it was, and the
  stream goes on with the callbacks that follow in the list (for the provider's
  library these are \<^verbatim>\<open>on_exception\<close> and \<^verbatim>\<open>on_end\<close>), so the list is the
  sequence of callbacks invoked, whichever they are.

  Modelled from the spec: \<^verbatim>\<open>AssistantClient._handle_required_action\<close>, which
  \<^verbatim>\<open>on_tool_call_done\<close> calls with \<^verbatim>\<open>stream=True\<close> when the required action is
  \<^verbatim>\<open>submit_tool_outputs\<close>, is not under src/. The tool outputs are submitted as a
  single resume operation, synchronously, before the run proceeds; the stream this
  opens is served by a \<^verbatim>\<open>StreamEventHandler\<close> of its own, constructed with
  \<^verbatim>\<open>is_submit_tool_call=True\<close> (the constructor's parameter for "the event handler
  is for a submit tool call"; the caller passes the thread id and the run id, not the
  handler). The notifications \<^verbatim>\<open>on_function_call_processed\<close> of the tool
  coordinator are not signals of the handler and are left out.
\<close>

fun on_event :: "conversation_store \<Rightarrow> stream_event_handler \<Rightarrow> event \<Rightarrow> outcome"
and until_done ::
  "conversation_store \<Rightarrow> stream_event_handler \<Rightarrow> event list \<Rightarrow> stream_event_handler \<times> signal list"
where
  "on_event store h OnException = (h, [], None)"
| "on_event store h OnTimeout = (h, [], None)"
| "on_event store h OnEnd = on_end h"
| "on_event store h OnMessageCreated = (h, [], None)"
| "on_event store h OnMessageDelta = (h, [], None)"
| "on_event store h (OnMessageDone message) = on_message_done h message"
| "on_event store h OnTextCreated = on_text_created store h"
| "on_event store h (OnTextDelta v) = on_text_delta h v"
| "on_event store h OnTextDone = (h, [], None)"
| "on_event store h OnToolCallCreated = on_tool_call_created store h"
| "on_event store h (OnToolCallDelta delta_type has_function) =
     on_tool_call_delta h delta_type has_function"
| "on_event store h (OnToolCallDone ra resumed) =
     (case ra of
        None \<Rightarrow> (h, [], None)
      | Some t \<Rightarrow>
          if t = ''submit_tool_outputs''
          then (h, snd (until_done store
                     (init store (self_name h) (self_thread_id h) (current_run_id h) True)
                     resumed), None)
          else (h, [], None))"
| "until_done store h [] = (h, [])"
| "until_done store h (e # es) =
     (case on_event store h e of
        (h', out, err) \<Rightarrow> (case until_done store h' es of (h'', out') \<Rightarrow> (h'', out @ out')))"

text \<open>
  The signals of one run: the handler of the run's own stream is constructed with the
  default \<^verbatim>\<open>is_submit_tool_call=False\<close> and receives the callbacks \<open>es\<close>.
\<close>

definition run_signals ::
  "conversation_store \<Rightarrow> string \<Rightarrow> string \<Rightarrow> string \<Rightarrow> event list \<Rightarrow> signal list" where
  "run_signals store parent_name tid run_id es =
     snd (until_done store (init store parent_name tid run_id False) es)"

text \<open>Readers of signals and events, used to state the properties.\<close>

fun is_run_start :: "signal \<Rightarrow> bool" where
  "is_run_start (OnRunStart n r u) = True"
| "is_run_start s = False"

fun is_run_end :: "signal \<Rightarrow> bool" where
  "is_run_end (OnRunEnd n r t) = True"
| "is_run_end s = False"

fun update_status :: "signal \<Rightarrow> string option" where
  "update_status (OnRunUpdate n r status t f m) = Some status"
| "update_status s = None"

fun update_is_first :: "signal \<Rightarrow> bool" where
  "update_is_first (OnRunUpdate n r status t f m) = f"
| "update_is_first s = False"

fun update_message :: "signal \<Rightarrow> string option" where
  "update_message (OnRunUpdate n r status t f m) = m"
| "update_message s = None"

definition is_streaming :: "signal \<Rightarrow> bool" where
  "is_streaming s = (update_status s = Some ''streaming'')"

definition is_in_progress :: "signal \<Rightarrow> bool" where
  "is_in_progress s = (update_status s = Some ''in_progress'')"

text \<open>The content-bearing callbacks: the first text and the first tool call.\<close>

definition content_bearing :: "event \<Rightarrow> bool" where
  "content_bearing e = (e = OnTextCreated \<or> e = OnToolCallCreated)"

text \<open>
  The text deltas a stream delivers, in order, those of the streams resumed after a
  submission of tool outputs included.
\<close>

fun text_deltas :: "event \<Rightarrow> string list"
and stream_deltas :: "event list \<Rightarrow> string list" where
  "text_deltas (OnTextDelta v) = [v]"
| "text_deltas (OnToolCallDone ra resumed) =
     (if ra = Some ''submit_tool_outputs'' then stream_deltas resumed else [])"
| "text_deltas e = []"
| "stream_deltas [] = []"
| "stream_deltas (e # es) = text_deltas e @ stream_deltas es"

text \<open>
  The first-chunk flags of these deltas when the flag is true for the first delta that
  each handler receives: \<open>first\<close> is the flag of the handler of the stream, and a
  resumed stream starts with the flag true again.
\<close>

fun delta_flags :: "bool \<Rightarrow> event list \<Rightarrow> bool list" where
  "delta_flags first [] = []"
| "delta_flags first (OnTextDelta v # es) = first # delta_flags False es"
| "delta_flags first (OnToolCallDone ra resumed # es) =
     (if ra = Some ''submit_tool_outputs'' then delta_flags True resumed else [])
     @ delta_flags first es"
| "delta_flags first (e # es) = delta_flags first es"

text \<open>A conversation store and a stream with a tool call, for concrete runs.\<close>

definition example_store :: conversation_store where
  "example_store = \<lparr>get_thread_name_by_id = (\<lambda>tid. ''Thread 1''),
                     last_user_text = (\<lambda>thread. Some ''What is the weather?'')\<rparr>"

definition example_stream :: "event list" where
  "example_stream =
     [OnTextCreated, OnTextDelta ''Let me '', OnTextDelta ''check.'', OnToolCallCreated,
      OnToolCallDone (Some ''submit_tool_outputs'')
        [OnTextCreated, OnTextDelta ''It is '', OnTextDelta ''sunny.'',
         OnMessageDone ''It is sunny.'', OnEnd],
      OnEnd]"

section \<open>MainWindow: state, collaborators and effects\<close>

text \<open>
  Modelled from the spec: the enum \<^verbatim>\<open>AttachmentType\<close> and the class
  \<^verbatim>\<open>Attachment\<close> are not under src/. An attachment is a file reference bound to a
  thread, with a kind tag that is one of code-interpreter-input, search-index-input and
  image; the source names the image kind \<^verbatim>\<open>AttachmentType.IMAGE_FILE\<close> and reads the
  attributes \<^verbatim>\<open>file_id\<close> and \<^verbatim>\<open>attachment_type\<close>.
\<close>

datatype attachment_type = CODE_INTERPRETER_INPUT | SEARCH_INDEX_INPUT | IMAGE_FILE

record attachment =
  file_id :: string
  attachment_type :: attachment_type

text \<open>
  The attachments submitted from the user interface are dicts; a key that is absent
  makes \<^verbatim>\<open>att["file_id"]\<close> raise \<^verbatim>\<open>KeyError\<close>.
\<close>

datatype pyval = PyNone | PyStr string | PyList "pyval list"

type_synonym attachment_dict = "string \<rightharpoonup> pyval"

text \<open>
  A message of a conversation, as far as the window reads it: the content of its text
  message, if it has one, and its file messages.
\<close>

record conversation_message =
  text_message :: "string option"
  file_messages :: "string list"

datatype activity_status = LISTENING_KEYWORD | LISTENING_SPEECH

text \<open>
  What the window does to the outside, in order: the Qt signals it emits
  (\<^verbatim>\<open>start_processing_signal\<close>, \<^verbatim>\<open>stop_processing_signal\<close>, \<^verbatim>\<open>error_signal\<close>,
  the signals of the conversation view and of the diagnostics sidebar, the status
  animations) and the calls it makes to collaborators that change something
  (\<^verbatim>\<open>process_messages\<close>, \<^verbatim>\<open>remove_attachment_from_thread\<close>,
  \<^verbatim>\<open>files.delete\<close>, \<^verbatim>\<open>create_conversation_thread_message\<close>, the sidebar).
\<close>

datatype effect =
    StartProcessing string bool
  | StopProcessing string bool
  | ErrorSignal error
  | ProcessMessages string "string option"
  | RemoveAttachmentFromThread string string
  | FilesDelete string
  | CreateThreadMessage string "string option"
  | SetAttachmentsForSelectedThread "attachment list"
  | ConversationViewClear
  | ConversationAppendMessages "conversation_message list"
  | ConversationAppendMessage conversation_message
  | ConversationAppendChunk string string bool
  | AppendConversation string string string
  | UpdateConversationTitle "string option" "string option"
  | DiagnosticsEndRun string string string
  | AssistantListSetDisabled bool
  | StopAnimation activity_status
  | StartAnimation activity_status
  | SelectConversationThread string

text \<open>
  The attributes of \<^verbatim>\<open>MainWindow\<close> that the modelled methods read or write.
  \<open>scheduled_task_threads\<close> is the dict from schedule id to thread name (a value can
  be \<^verbatim>\<open>None\<close>, which \<^verbatim>\<open>handle_execution\<close> stores when it finds no binding);
  \<open>thread_client_present\<close> says that
  \<^verbatim>\<open>conversation_thread_clients[active_ai_client_type]\<close> is not \<^verbatim>\<open>None\<close>;
  \<open>has_conversation_title_creator\<close> is \<^verbatim>\<open>hasattr(self, 'conversation_title_creator')\<close>;
  \<open>thread_attachments\<close> is the attachment list of each thread id in the thread
  client's configuration; \<open>collaborators\<close> is the state of everything else outside
  the window, of a type left open; \<open>emitted\<close> is the log of effects.
\<close>

record 'x main_window =
  scheduled_task_threads :: "string \<rightharpoonup> string option"
  use_system_assistant_for_thread_name :: bool
  thread_client_present :: bool
  has_conversation_title_creator :: bool
  thread_attachments :: "string \<Rightarrow> attachment list"
  collaborators :: 'x
  emitted :: "effect list"

text \<open>
  The collaborators' methods that the modelled code calls, as functions of the
  collaborators' state. A result \<open>None\<close> of an option, or \<open>Some e\<close> in an
  \<open>error option\<close>, stands for a call that raises. \<open>get_client\<close> gives the
  \<^verbatim>\<open>assistant_type\<close> of the assistant's client, \<open>None\<close> when
  \<^verbatim>\<open>assistant_client_manager.get_client\<close> returns \<^verbatim>\<open>None\<close>;
  \<open>thread_list_empty_or_unselected\<close> is the test
  \<^verbatim>\<open>threadList.count() == 0 or not threadList.selectedItems()\<close>.
\<close>

record 'x env =
  files_delete :: "'x \<Rightarrow> string \<Rightarrow> 'x \<times> error option"
  get_thread_id_by_name :: "'x \<Rightarrow> string option \<Rightarrow> string"
  retrieve_conversation :: "'x \<Rightarrow> string option \<Rightarrow> conversation_message list option"
  contains_file_id :: "'x \<Rightarrow> string option \<Rightarrow> pyval \<Rightarrow> bool"
  create_conversation_thread_message ::
    "(string \<Rightarrow> attachment list) \<times> 'x \<Rightarrow> string \<Rightarrow> string option
       \<Rightarrow> attachment_dict list option
       \<Rightarrow> ((string \<Rightarrow> attachment list) \<times> 'x) \<times> error option"
  get_client :: "'x \<Rightarrow> string \<Rightarrow> string option"
  process_messages :: "'x \<Rightarrow> string \<Rightarrow> string option \<Rightarrow> 'x \<times> error option"
  is_current_conversation_thread :: "'x \<Rightarrow> string \<Rightarrow> bool"
  thread_list_empty_or_unselected :: "'x \<Rightarrow> bool"
  get_current_text :: "'x \<Rightarrow> string"
  create_conversation_thread :: "'x \<Rightarrow> bool \<Rightarrow> 'x \<times> string option"
  title_creator_process_messages :: "'x \<Rightarrow> string \<Rightarrow> 'x \<times> string option"
  set_conversation_thread_name :: "'x \<Rightarrow> string \<Rightarrow> string \<Rightarrow> 'x \<times> string option"
  is_thread_selected :: "'x \<Rightarrow> string option \<Rightarrow> bool"
  is_assistant_selected :: "'x \<Rightarrow> string \<Rightarrow> bool"

definition emit :: "effect \<Rightarrow> 'x main_window \<Rightarrow> 'x main_window" where
  "emit s w = w\<lparr>emitted := emitted w @ [s]\<rparr>"

section \<open>MainWindow: attachments of a thread\<close>

text \<open>
  Modelled from the spec: \<^verbatim>\<open>ConversationThreadConfig.get_attachments_of_thread\<close> and
  \<^verbatim>\<open>remove_attachment_from_thread\<close> are not under src/. A thread holds its
  attachments; an attachment that is removed is detached from the thread, so that the
  thread holds no attachment with that file id afterwards.
\<close>

definition get_attachments_of_thread :: "(string \<Rightarrow> attachment list) \<Rightarrow> string \<Rightarrow> attachment list" where
  "get_attachments_of_thread cfg tid = cfg tid"

definition remove_attachment_from_thread ::
  "(string \<Rightarrow> attachment list) \<Rightarrow> string \<Rightarrow> string \<Rightarrow> (string \<Rightarrow> attachment list)" where
  "remove_attachment_from_thread cfg tid fid = cfg(tid := filter (\<lambda>a. file_id a \<noteq> fid) (cfg tid))"

text \<open>
  \<^verbatim>\<open>[att["file_id"] for att in attachments_dicts]\<close>.
\<close>

fun file_ids :: "attachment_dict list \<Rightarrow> error + pyval list" where
  "file_ids [] = Inr []"
| "file_ids (att # atts) =
     (case att ''file_id'' of
        None \<Rightarrow> Inl KeyError
      | Some v \<Rightarrow> (case file_ids atts of Inl e \<Rightarrow> Inl e | Inr vs \<Rightarrow> Inr (v # vs)))"

text \<open>
  The loop \<^verbatim>\<open>for attachment in attachments_to_remove\<close> of
  \<^verbatim>\<open>update_attachments_from_ui_to_thread\<close>: the attachment is removed from the
  thread's configuration and, unless it is an image, deleted with \<^verbatim>\<open>files.delete\<close>;
  an exception of \<^verbatim>\<open>files.delete\<close> ends the loop.
\<close>

fun remove_attachments ::
  "'x env \<Rightarrow> string \<Rightarrow> attachment list \<Rightarrow> 'x main_window \<Rightarrow> 'x main_window \<times> error option" where
  "remove_attachments env tid [] w = (w, None)"
| "remove_attachments env tid (a # as) w =
     (let w1 = emit (RemoveAttachmentFromThread tid (file_id a))
                 (w\<lparr>thread_attachments :=
                      remove_attachment_from_thread (thread_attachments w) tid (file_id a)\<rparr>)
      in if attachment_type a \<noteq> IMAGE_FILE
         then (case files_delete env (collaborators w1) (file_id a) of
                 (x, Some e) \<Rightarrow> (emit (FilesDelete (file_id a)) (w1\<lparr>collaborators := x\<rparr>), Some e)
               | (x, None) \<Rightarrow>
                   remove_attachments env tid as
                     (emit (FilesDelete (file_id a)) (w1\<lparr>collaborators := x\<rparr>)))
         else remove_attachments env tid as w1)"

text \<open>
  \<^verbatim>\<open>update_attachments_from_ui_to_thread(thread_client, thread_id, attachments_dicts)\<close>.
  Iterating over \<^verbatim>\<open>attachments_dicts\<close> raises \<^verbatim>\<open>TypeError\<close> when it is
  \<^verbatim>\<open>None\<close>, the default of \<^verbatim>\<open>process_input\<close>.
\<close>

definition update_attachments_from_ui_to_thread ::
  "'x env \<Rightarrow> 'x main_window \<Rightarrow> string \<Rightarrow> attachment_dict list option
     \<Rightarrow> 'x main_window \<times> error option" where
  "update_attachments_from_ui_to_thread env w tid attachments_dicts =
     (let existing_attachments = get_attachments_of_thread (thread_attachments w) tid in
      case attachments_dicts of
        None \<Rightarrow> (w, Some TypeError)
      | Some dicts \<Rightarrow>
          (case file_ids dicts of
             Inl e \<Rightarrow> (w, Some e)
           | Inr all_attachment_ids \<Rightarrow>
               remove_attachments env tid
                 [att \<leftarrow> existing_attachments. PyStr (file_id att) \<notin> set all_attachment_ids] w))"

text \<open>
  The calls a reconciliation makes for one attachment it removes.
\<close>

definition removal_calls :: "string \<Rightarrow> attachment \<Rightarrow> effect list" where
  "removal_calls tid a =
     RemoveAttachmentFromThread tid (file_id a) #
       (if attachment_type a \<noteq> IMAGE_FILE then [FilesDelete (file_id a)] else [])"

section \<open>MainWindow: processing an input\<close>

text \<open>
  \<^verbatim>\<open>create_thread_message\<close>: the submitted attachments that the conversation does
  not contain yet go into the new message.
\<close>

fun new_attachments ::
  "'x env \<Rightarrow> 'x \<Rightarrow> string option \<Rightarrow> attachment_dict list \<Rightarrow> error + attachment_dict list" where
  "new_attachments env x thread_name [] = Inr []"
| "new_attachments env x thread_name (att_dict # rest) =
     (case att_dict ''file_id'' of
        None \<Rightarrow> Inl KeyError
      | Some v \<Rightarrow>
          (case new_attachments env x thread_name rest of
             Inl e \<Rightarrow> Inl e
           | Inr r \<Rightarrow> Inr (if \<not> contains_file_id env x thread_name v then att_dict # r else r)))"

definition create_thread_message ::
  "'x env \<Rightarrow> 'x main_window \<Rightarrow> string \<Rightarrow> string option \<Rightarrow> attachment_dict list option
     \<Rightarrow> 'x main_window \<times> error option" where
  "create_thread_message env w user_input thread_name attachments_dicts =
     (case retrieve_conversation env (collaborators w) thread_name of
        None \<Rightarrow> (w, Some CollaboratorError)
      | Some conversation \<Rightarrow>
          (case (case attachments_dicts of
                   None \<Rightarrow> Inr None
                 | Some dicts \<Rightarrow>
                     (case new_attachments env (collaborators w) thread_name dicts of
                        Inl e \<Rightarrow> Inl e
                      | Inr atts \<Rightarrow> Inr (Some atts))) of
             Inl e \<Rightarrow> (w, Some e)
           | Inr attachments \<Rightarrow>
               (case create_conversation_thread_message env
                       (thread_attachments w, collaborators w) user_input thread_name attachments of
                  ((cfg, x), err) \<Rightarrow>
                    ((emit (CreateThreadMessage user_input thread_name) w)
                       \<lparr>thread_attachments := cfg, collaborators := x\<rparr>, err))))"

definition update_attachments_in_ui_from_thread :: "'x main_window \<Rightarrow> string \<Rightarrow> 'x main_window" where
  "update_attachments_in_ui_from_thread w tid =
     emit (SetAttachmentsForSelectedThread (get_attachments_of_thread (thread_attachments w) tid)) w"

definition update_conversation_messages ::
  "'x main_window \<Rightarrow> conversation_message list \<Rightarrow> 'x main_window" where
  "update_conversation_messages w conversation =
     emit (ConversationAppendMessages conversation) (emit ConversationViewClear w)"

text \<open>
  \<^verbatim>\<open>process_assistant_input(assistant_name, thread_name, is_scheduled_task)\<close>: the
  start signal, the run of the assistant's client if there is one, the stop signal.
  An exception of \<^verbatim>\<open>process_messages\<close> leaves the method before the stop signal.
\<close>

definition process_assistant_input ::
  "'x env \<Rightarrow> 'x main_window \<Rightarrow> string \<Rightarrow> string option \<Rightarrow> bool \<Rightarrow> 'x main_window \<times> error option" where
  "process_assistant_input env w assistant_name thread_name is_scheduled_task =
     (let w1 = emit (StartProcessing assistant_name is_scheduled_task) w in
      case get_client env (collaborators w1) assistant_name of
        None \<Rightarrow> (emit (StopProcessing assistant_name is_scheduled_task) w1, None)
      | Some assistant_client \<Rightarrow>
          (let w2 = emit (ProcessMessages assistant_name thread_name) w1 in
           case process_messages env (collaborators w2) assistant_name thread_name of
             (x, Some e) \<Rightarrow> (w2\<lparr>collaborators := x\<rparr>, Some e)
           | (x, None) \<Rightarrow>
               (emit (StopProcessing assistant_name is_scheduled_task) (w2\<lparr>collaborators := x\<rparr>),
                None)))"

text \<open>
  \<^verbatim>\<open>process_input\<close>. \<open>process_assistants\<close> is the loop over the assistants and
  \<open>process_input_try\<close> the body of \<^verbatim>\<open>try\<close>; with an exception they return what
  \<^verbatim>\<open>assistant_name\<close> is bound to at that point (\<open>None\<close> before the loop has
  bound it). The handler of \<^verbatim>\<open>except Exception\<close> emits the error signal and the stop
  signal for \<^verbatim>\<open>assistant_name\<close>; reading the unbound variable raises
  \<^verbatim>\<open>UnboundLocalError\<close>, which leaves \<^verbatim>\<open>process_input\<close>.
\<close>

fun process_assistants ::
  "'x env \<Rightarrow> 'x main_window \<Rightarrow> string list \<Rightarrow> string option \<Rightarrow> bool
     \<Rightarrow> 'x main_window \<times> (string \<times> error) option" where
  "process_assistants env w [] thread_name is_scheduled_task = (w, None)"
| "process_assistants env w (assistant_name # rest) thread_name is_scheduled_task =
     (case process_assistant_input env w assistant_name thread_name is_scheduled_task of
        (w', Some e) \<Rightarrow> (w', Some (assistant_name, e))
      | (w', None) \<Rightarrow> process_assistants env w' rest thread_name is_scheduled_task)"

definition process_input_try ::
  "'x env \<Rightarrow> 'x main_window \<Rightarrow> string \<Rightarrow> string list \<Rightarrow> string option \<Rightarrow> bool
     \<Rightarrow> attachment_dict list option \<Rightarrow> 'x main_window \<times> (string option \<times> error) option" where
  "process_input_try env w user_input assistants thread_name is_scheduled_task attachments_dicts =
     (if \<not> thread_client_present w then (w, Some (None, AttributeError))
      else
        let thread_id = get_thread_id_by_name env (collaborators w) thread_name in
        case update_attachments_from_ui_to_thread env w thread_id attachments_dicts of
          (w1, Some e) \<Rightarrow> (w1, Some (None, e))
        | (w1, None) \<Rightarrow>
            (case create_thread_message env w1 user_input thread_name attachments_dicts of
               (w2, Some e) \<Rightarrow> (w2, Some (None, e))
             | (w2, None) \<Rightarrow>
                 (let w3 = update_attachments_in_ui_from_thread w2 thread_id in
                  case retrieve_conversation env (collaborators w3) thread_name of
                    None \<Rightarrow> (w3, Some (None, CollaboratorError))
                  | Some updated_conversation \<Rightarrow>
                      (case process_assistants env
                              (update_conversation_messages w3 updated_conversation)
                              assistants thread_name is_scheduled_task of
                         (w5, Some (assistant_name, e)) \<Rightarrow> (w5, Some (Some assistant_name, e))
                       | (w5, None) \<Rightarrow> (w5, None)))))"

definition process_input ::
  "'x env \<Rightarrow> 'x main_window \<Rightarrow> string \<Rightarrow> string list \<Rightarrow> string option \<Rightarrow> bool
     \<Rightarrow> attachment_dict list option \<Rightarrow> 'x main_window \<times> error option" where
  "process_input env w user_input assistants thread_name is_scheduled_task attachments_dicts =
     (case process_input_try env w user_input assistants thread_name is_scheduled_task
             attachments_dicts of
        (w', None) \<Rightarrow> (w', None)
      | (w', Some (bound, e)) \<Rightarrow>
          (let w1 = emit (ErrorSignal e) w' in
           case bound of
             None \<Rightarrow> (w1, Some UnboundLocalError)
           | Some assistant_name \<Rightarrow>
               (emit (StopProcessing assistant_name is_scheduled_task) w1, None)))"

text \<open>
  The statements of the body of \<^verbatim>\<open>try\<close> that come before the loop, on their own:
  \<open>process_input_try\<close> is these statements followed by the loop (lemma
  \<open>process_input_try_setup\<close>).
\<close>

definition process_input_setup ::
  "'x env \<Rightarrow> 'x main_window \<Rightarrow> string \<Rightarrow> string option \<Rightarrow> attachment_dict list option
     \<Rightarrow> 'x main_window \<times> error option" where
  "process_input_setup env w user_input thread_name attachments_dicts =
     (if \<not> thread_client_present w then (w, Some AttributeError)
      else
        let thread_id = get_thread_id_by_name env (collaborators w) thread_name in
        case update_attachments_from_ui_to_thread env w thread_id attachments_dicts of
          (w1, Some e) \<Rightarrow> (w1, Some e)
        | (w1, None) \<Rightarrow>
            (case create_thread_message env w1 user_input thread_name attachments_dicts of
               (w2, Some e) \<Rightarrow> (w2, Some e)
             | (w2, None) \<Rightarrow>
                 (let w3 = update_attachments_in_ui_from_thread w2 thread_id in
                  case retrieve_conversation env (collaborators w3) thread_name of
                    None \<Rightarrow> (w3, Some CollaboratorError)
                  | Some updated_conversation \<Rightarrow>
                      (update_conversation_messages w3 updated_conversation, None))))"

section \<open>MainWindow: scheduled tasks\<close>

definition setup_conversation_thread ::
  "'x env \<Rightarrow> 'x main_window \<Rightarrow> bool \<Rightarrow> 'x main_window \<times> (error + string)" where
  "setup_conversation_thread env w is_scheduled_task =
     (if \<not> thread_client_present w then (w, Inl ValueError)
      else if is_scheduled_task then
        (case create_conversation_thread env (collaborators w) is_scheduled_task of
           (x, None) \<Rightarrow> (w\<lparr>collaborators := x\<rparr>, Inl CollaboratorError)
         | (x, Some thread_name) \<Rightarrow> (w\<lparr>collaborators := x\<rparr>, Inr thread_name))
      else if thread_list_empty_or_unselected env (collaborators w) then
        (case create_conversation_thread env (collaborators w) is_scheduled_task of
           (x, None) \<Rightarrow> (w\<lparr>collaborators := x\<rparr>, Inl CollaboratorError)
         | (x, Some thread_name) \<Rightarrow>
             (emit (SelectConversationThread thread_name) (w\<lparr>collaborators := x\<rparr>),
              Inr thread_name))
      else (w, Inr (get_current_text env (collaborators w))))"

definition update_conversation_title ::
  "'x env \<Rightarrow> 'x main_window \<Rightarrow> string \<Rightarrow> string option \<Rightarrow> bool
     \<Rightarrow> 'x main_window \<times> (error + string option)" where
  "update_conversation_title env w text thread_name is_scheduled_task =
     (if \<not> has_conversation_title_creator w then (w, Inr thread_name)
      else
        case thread_name of
          None \<Rightarrow> (w, Inl TypeError)
        | Some tn \<Rightarrow>
            (case title_creator_process_messages env (collaborators w) (tn @ '' '' @ text) of
               (x, None) \<Rightarrow> (w\<lparr>collaborators := x\<rparr>, Inl CollaboratorError)
             | (x, Some new_thread_name) \<Rightarrow>
                 (let new_thread_name' =
                        (if is_scheduled_task then ''Scheduled_'' @ new_thread_name
                         else new_thread_name)
                  in if \<not> thread_client_present w
                     then (w\<lparr>collaborators := x\<rparr>, Inl AttributeError)
                     else
                       case set_conversation_thread_name env x new_thread_name' tn of
                         (x', None) \<Rightarrow> (w\<lparr>collaborators := x'\<rparr>, Inl CollaboratorError)
                       | (x', Some unique_thread_title) \<Rightarrow>
                           (w\<lparr>collaborators := x'\<rparr>, Inr (Some unique_thread_title)))))"

text \<open>
  The tasks of the task manager, as \<^verbatim>\<open>on_task_execute\<close> tells them apart: a basic
  task (assistant name, user request), a batch task (assistant name, requests) and a
  multi task, whose requests are dicts with the keys \<^verbatim>\<open>'assistant'\<close> and
  \<^verbatim>\<open>'task'\<close>; any other task is ignored. What is done under
  \<^verbatim>\<open>with self.thread_lock\<close> is one step of the model.
\<close>

datatype task =
    BasicTask string string
  | BatchTask string "string list"
  | MultiTask "(string \<rightharpoonup> string) list"
  | OtherTask

definition on_task_started ::
  "'x env \<Rightarrow> 'x main_window \<Rightarrow> task \<Rightarrow> string \<Rightarrow> 'x main_window \<times> error option" where
  "on_task_started env w task schedule_id =
     (if schedule_id \<notin> dom (scheduled_task_threads w) then
        (case setup_conversation_thread env w True of
           (w1, Inl e) \<Rightarrow> (w1, Some e)
         | (w1, Inr thread_name) \<Rightarrow>
             (w1\<lparr>scheduled_task_threads :=
                    (scheduled_task_threads w1)(schedule_id \<mapsto> Some thread_name)\<rparr>, None))
      else (w, None))"

definition cleanup_scheduled_thread :: "'x main_window \<Rightarrow> string \<Rightarrow> 'x main_window" where
  "cleanup_scheduled_thread w schedule_id =
     (if schedule_id \<in> dom (scheduled_task_threads w)
      then w\<lparr>scheduled_task_threads := (scheduled_task_threads w)(schedule_id := None)\<rparr>
      else w)"

definition on_task_completed :: "'x main_window \<Rightarrow> task \<Rightarrow> string \<Rightarrow> 'x main_window" where
  "on_task_completed w task schedule_id = cleanup_scheduled_thread w schedule_id"

definition on_task_failed :: "'x main_window \<Rightarrow> task \<Rightarrow> string \<Rightarrow> 'x main_window" where
  "on_task_failed w task schedule_id = cleanup_scheduled_thread w schedule_id"

text \<open>
  \<^verbatim>\<open>handle_execution\<close> reads the binding with \<^verbatim>\<open>dict.get\<close>, stores the thread
  name again (the new title when the system assistant names threads) and calls
  \<^verbatim>\<open>process_input\<close> without attachments.
\<close>

definition handle_execution ::
  "'x env \<Rightarrow> 'x main_window \<Rightarrow> string \<Rightarrow> string \<Rightarrow> string \<Rightarrow> 'x main_window \<times> error option" where
  "handle_execution env w user_request schedule_id assistant_name =
     (let thread_name = (case scheduled_task_threads w schedule_id of
                           None \<Rightarrow> None | Some v \<Rightarrow> v);
          w1 = (if is_thread_selected env (collaborators w) thread_name
                then emit (AppendConversation ''user'' user_request ''blue'') w else w)
      in case (if use_system_assistant_for_thread_name w1
               then (case update_conversation_title env w1 user_request thread_name True of
                       (w2, Inl e) \<Rightarrow> (w2, Inl e)
                     | (w2, Inr updated_thread_name) \<Rightarrow>
                         (emit (UpdateConversationTitle thread_name updated_thread_name) w2,
                          Inr updated_thread_name))
               else (w1, Inr thread_name)) of
           (w3, Inl e) \<Rightarrow> (w3, Some e)
         | (w3, Inr thread_name') \<Rightarrow>
             process_input env
               (w3\<lparr>scheduled_task_threads :=
                     (scheduled_task_threads w3)(schedule_id \<mapsto> thread_name')\<rparr>)
               user_request [assistant_name] thread_name' True None)"

fun handle_executions ::
  "'x env \<Rightarrow> 'x main_window \<Rightarrow> string \<Rightarrow> string \<Rightarrow> string list \<Rightarrow> 'x main_window \<times> error option" where
  "handle_executions env w schedule_id assistant_name [] = (w, None)"
| "handle_executions env w schedule_id assistant_name (request # requests) =
     (case handle_execution env w request schedule_id assistant_name of
        (w', Some e) \<Rightarrow> (w', Some e)
      | (w', None) \<Rightarrow> handle_executions env w' schedule_id assistant_name requests)"

fun handle_multi_executions ::
  "'x env \<Rightarrow> 'x main_window \<Rightarrow> string \<Rightarrow> (string \<rightharpoonup> string) list \<Rightarrow> 'x main_window \<times> error option" where
  "handle_multi_executions env w schedule_id [] = (w, None)"
| "handle_multi_executions env w schedule_id (request # requests) =
     (case request ''assistant'' of
        None \<Rightarrow> (w, Some KeyError)
      | Some assistant \<Rightarrow>
          (case request ''task'' of
             None \<Rightarrow> (w, Some KeyError)
           | Some task_request \<Rightarrow>
               (case handle_execution env w task_request schedule_id assistant of
                  (w', Some e) \<Rightarrow> (w', Some e)
                | (w', None) \<Rightarrow> handle_multi_executions env w' schedule_id requests)))"

fun on_task_execute ::
  "'x env \<Rightarrow> 'x main_window \<Rightarrow> task \<Rightarrow> string \<Rightarrow> 'x main_window \<times> error option" where
  "on_task_execute env w (BasicTask assistant_name user_request) schedule_id =
     handle_execution env w user_request schedule_id assistant_name"
| "on_task_execute env w (BatchTask assistant_name requests) schedule_id =
     handle_executions env w schedule_id assistant_name requests"
| "on_task_execute env w (MultiTask requests) schedule_id =
     handle_multi_executions env w schedule_id requests"
| "on_task_execute env w OtherTask schedule_id = (w, None)"

datatype task_callback =
    TaskStarted task string
  | TaskExecute task string
  | TaskCompleted task string
  | TaskFailed task string

fun task_manager_callback ::
  "'x env \<Rightarrow> 'x main_window \<Rightarrow> task_callback \<Rightarrow> 'x main_window \<times> error option" where
  "task_manager_callback env w (TaskStarted task schedule_id) = on_task_started env w task schedule_id"
| "task_manager_callback env w (TaskExecute task schedule_id) = on_task_execute env w task schedule_id"
| "task_manager_callback env w (TaskCompleted task schedule_id) =
     (on_task_completed w task schedule_id, None)"
| "task_manager_callback env w (TaskFailed task schedule_id) =
     (on_task_failed w task schedule_id, None)"

section \<open>MainWindow: signals of a run\<close>

text \<open>
  \<open>contains sub s\<close> is Python's \<^verbatim>\<open>sub in s\<close> on strings. The value
  \<^verbatim>\<open>AssistantType.REALTIME_ASSISTANT.value\<close> is taken to be
  \<^verbatim>\<open>"realtime_assistant"\<close>.
\<close>

fun contains :: "string \<Rightarrow> string \<Rightarrow> bool" where
  "contains sub [] = (sub = [])"
| "contains sub (c # cs) = (take (length sub) (c # cs) = sub \<or> contains sub cs)"

definition is_realtime_assistant :: "'x env \<Rightarrow> 'x \<Rightarrow> string \<Rightarrow> bool" where
  "is_realtime_assistant env x assistant_name =
     (case get_client env x assistant_name of
        Some client_assistant_type \<Rightarrow> client_assistant_type = ''realtime_assistant''
      | None \<Rightarrow> False)"

definition handle_realtime_run_end :: "'x env \<Rightarrow> 'x main_window \<Rightarrow> string \<Rightarrow> string \<Rightarrow> 'x main_window" where
  "handle_realtime_run_end env w assistant_name run_identifier =
     (if is_realtime_assistant env (collaborators w) assistant_name then
        (let w1 = emit (AssistantListSetDisabled False) w in
         if contains ''keyword'' run_identifier then
           (let w2 = emit (StopAnimation LISTENING_SPEECH) w1 in
            if is_assistant_selected env (collaborators w2) assistant_name
            then emit (StartAnimation LISTENING_KEYWORD) w2 else w2)
         else w1)
      else w)"

text \<open>
  \<^verbatim>\<open>on_run_update\<close> returns at once when the thread of the signal is not the
  current conversation thread. A streaming update reads \<^verbatim>\<open>message.text_message\<close>,
  which raises for \<^verbatim>\<open>None\<close>.
\<close>

definition on_run_update ::
  "'x env \<Rightarrow> 'x main_window \<Rightarrow> string \<Rightarrow> string \<Rightarrow> string \<Rightarrow> string \<Rightarrow> bool
     \<Rightarrow> conversation_message option \<Rightarrow> 'x main_window \<times> error option" where
  "on_run_update env w assistant_name run_identifier run_status thread_name is_first_message message =
     (if \<not> thread_client_present w then (w, Some AttributeError)
      else if \<not> is_current_conversation_thread env (collaborators w) thread_name then (w, None)
      else if run_status = ''streaming'' then
        (case message of
           None \<Rightarrow> (w, Some AttributeError)
         | Some m \<Rightarrow>
             (case text_message m of
                Some content \<Rightarrow>
                  (emit (ConversationAppendChunk assistant_name content is_first_message) w, None)
              | None \<Rightarrow> (w, None)))
      else if run_status = ''in_progress'' \<and> message \<noteq> None then
        (case message of
           Some m \<Rightarrow> (emit (ConversationAppendMessage m) w, None)
         | None \<Rightarrow> (w, None))
      else
        (case retrieve_conversation env (collaborators w) (Some thread_name) of
           None \<Rightarrow> (w, Some CollaboratorError)
         | Some conversation \<Rightarrow>
             (if conversation \<noteq> [] then (update_conversation_messages w conversation, None)
              else (w, None))))"

text \<open>
  \<^verbatim>\<open>on_run_failed\<close> reports to the diagnostics sidebar and then loads the
  conversation of the thread of the signal into the conversation view.
\<close>

definition on_run_failed ::
  "'x env \<Rightarrow> 'x main_window \<Rightarrow> string \<Rightarrow> string \<Rightarrow> string \<Rightarrow> string \<Rightarrow> string
     \<Rightarrow> 'x main_window \<times> error option" where
  "on_run_failed env w assistant_name run_identifier error_code error_message thread_name =
     (let error_string = ''Run failed due to error code: '' @ error_code @ '', message: '' @ error_message;
          w1 = emit (DiagnosticsEndRun assistant_name run_identifier error_string) w;
          w2 = handle_realtime_run_end env w1 assistant_name run_identifier
      in if \<not> thread_client_present w2 then (w2, Some AttributeError)
         else
           case retrieve_conversation env (collaborators w2) (Some thread_name) of
             None \<Rightarrow> (w2, Some CollaboratorError)
           | Some conversation \<Rightarrow> (update_conversation_messages w2 conversation, None))"

text \<open>
  The order of the start and stop signals in a log of effects, as an automaton:
  \<open>cur\<close> is the assistant whose input is being processed, if any. A start signal
  needs no assistant in processing, a call of \<^verbatim>\<open>process_messages\<close> and a stop
  signal need their own assistant in processing, and at the end no assistant is in
  processing. \<open>neutral\<close> effects are those the automaton ignores.
\<close>

fun processing_trace_ok :: "(string \<times> bool) option \<Rightarrow> effect list \<Rightarrow> bool" where
  "processing_trace_ok cur [] = (cur = None)"
| "processing_trace_ok cur (StartProcessing a s # es) =
     (cur = None \<and> processing_trace_ok (Some (a, s)) es)"
| "processing_trace_ok cur (ProcessMessages a t # es) =
     (map_option fst cur = Some a \<and> processing_trace_ok cur es)"
| "processing_trace_ok cur (StopProcessing a s # es) =
     (cur = Some (a, s) \<and> processing_trace_ok None es)"
| "processing_trace_ok cur (e # es) = processing_trace_ok cur es"

fun neutral :: "effect \<Rightarrow> bool" where
  "neutral (StartProcessing a s) = False"
| "neutral (ProcessMessages a t) = False"
| "neutral (StopProcessing a s) = False"
| "neutral e = True"

text \<open>
  The start and stop signals that processing the inputs of the assistants \<open>as\<close> is
  to give, with the collaborators in state \<open>x\<close>: for each assistant in turn the
  start signal, the call of \<^verbatim>\<open>process_messages\<close> if the assistant has a client,
  and the stop signal; when \<^verbatim>\<open>process_messages\<close> raises, the error signal and the
  stop signal, and the assistants after it are not processed.
\<close>

fun processing_log ::
  "'x env \<Rightarrow> 'x \<Rightarrow> string list \<Rightarrow> string option \<Rightarrow> bool \<Rightarrow> effect list" where
  "processing_log env x [] thread_name is_scheduled_task = []"
| "processing_log env x (assistant_name # rest) thread_name is_scheduled_task =
     StartProcessing assistant_name is_scheduled_task #
     (case get_client env x assistant_name of
        None \<Rightarrow>
          StopProcessing assistant_name is_scheduled_task #
          processing_log env x rest thread_name is_scheduled_task
      | Some assistant_client \<Rightarrow>
          ProcessMessages assistant_name thread_name #
          (case process_messages env x assistant_name thread_name of
             (x', None) \<Rightarrow>
               StopProcessing assistant_name is_scheduled_task #
               processing_log env x' rest thread_name is_scheduled_task
           | (x', Some e) \<Rightarrow>
               [ErrorSignal e, StopProcessing assistant_name is_scheduled_task]))"

text \<open>The assistants of the start signals and of the stop signals of a log, in order.\<close>

fun started_assistants :: "effect list \<Rightarrow> string list" where
  "started_assistants [] = []"
| "started_assistants (StartProcessing a s # es) = a # started_assistants es"
| "started_assistants (e # es) = started_assistants es"

fun stopped_assistants :: "effect list \<Rightarrow> string list" where
  "stopped_assistants [] = []"
| "stopped_assistants (StopProcessing a s # es) = a # stopped_assistants es"
| "stopped_assistants (e # es) = stopped_assistants es"

text \<open>
  Collaborators and a window for concrete runs: the assistant \<^verbatim>\<open>B\<close> fails in
  \<^verbatim>\<open>process_messages\<close>, the assistant \<^verbatim>\<open>C\<close> has no client, and the thread
  displayed is \<^verbatim>\<open>Thread 1\<close>.
\<close>

definition example_env :: "string list env" where
  "example_env =
     \<lparr>files_delete = (\<lambda>x fid. (x @ [fid], None)),
      get_thread_id_by_name = (\<lambda>x tn. ''thread_1''),
      retrieve_conversation =
        (\<lambda>x tn. Some [\<lparr>text_message = Some ''hello'', file_messages = []\<rparr>]),
      contains_file_id = (\<lambda>x tn v. False),
      create_conversation_thread_message = (\<lambda>cx user_input tn atts. (cx, None)),
      get_client = (\<lambda>x a. if a = ''C'' then None else Some ''assistant''),
      process_messages = (\<lambda>x a tn. (x, if a = ''B'' then Some CollaboratorError else None)),
      is_current_conversation_thread = (\<lambda>x tn. tn = ''Thread 1''),
      thread_list_empty_or_unselected = (\<lambda>x. False),
      get_current_text = (\<lambda>x. ''Thread 1''),
      create_conversation_thread = (\<lambda>x scheduled. (x, Some ''Scheduled thread'')),
      title_creator_process_messages = (\<lambda>x request. (x, Some ''Title'')),
      set_conversation_thread_name = (\<lambda>x new old. (x, Some new)),
      is_thread_selected = (\<lambda>x tn. False),
      is_assistant_selected = (\<lambda>x a. False)\<rparr>"

definition example_window :: "string list main_window" where
  "example_window =
     \<lparr>scheduled_task_threads = Map.empty,
      use_system_assistant_for_thread_name = False,
      thread_client_present = True,
      has_conversation_title_creator = False,
      thread_attachments =
        (\<lambda>tid. if tid = ''thread_1''
               then [\<lparr>file_id = ''f1'', attachment_type = CODE_INTERPRETER_INPUT\<rparr>,
                     \<lparr>file_id = ''f2'', attachment_type = IMAGE_FILE\<rparr>,
                     \<lparr>file_id = ''f3'', attachment_type = SEARCH_INDEX_INPUT\<rparr>]
               else []),
      collaborators = [],
      emitted = []\<rparr>"

section \<open>Properties of AssistantConfig equality\<close>

text \<open>
  C10. Equality of two configurations compares name, instructions, assistant_id,
  ai_client_type, model, knowledge_files, selected_functions, knowledge_retrieval and
  code_interpreter, and nothing else: configurations that agree on these nine compare
  equal, configurations that differ in any one of them compare unequal, and the result
  does not depend on output_folder_path, assistant_type, config_data or
  function_configs of either side. A right operand that is no AssistantConfig gives
  NotImplemented.
\<close>

theorem assistant_config_eq_nine_fields:
  fixes self other :: "'j assistant_config" and x :: 'o
  shows "(name self = name other \<and> instructions self = instructions other \<and>
          assistant_id self = assistant_id other \<and>
          ai_client_type self = ai_client_type other \<and> model self = model other \<and>
          knowledge_files self = knowledge_files other \<and>
          selected_functions self = selected_functions other \<and>
          knowledge_retrieval self = knowledge_retrieval other \<and>
          code_interpreter self = code_interpreter other
          \<longrightarrow> assistant_config_eq self (AssistantConfigObj other :: ('j, 'o) py_object)
                = Truth True) \<and>
         (name self \<noteq> name other \<or> instructions self \<noteq> instructions other \<or>
          assistant_id self \<noteq> assistant_id other \<or>
          ai_client_type self \<noteq> ai_client_type other \<or> model self \<noteq> model other \<or>
          knowledge_files self \<noteq> knowledge_files other \<or>
          selected_functions self \<noteq> selected_functions other \<or>
          knowledge_retrieval self \<noteq> knowledge_retrieval other \<or>
          code_interpreter self \<noteq> code_interpreter other
          \<longrightarrow> assistant_config_eq self (AssistantConfigObj other :: ('j, 'o) py_object)
                = Truth False) \<and>
         assistant_config_eq self
            (AssistantConfigObj
               (other\<lparr>output_folder_path := p, assistant_type := t, config_data := c,
                      function_configs := f\<rparr>) :: ('j, 'o) py_object)
           = assistant_config_eq self (AssistantConfigObj other :: ('j, 'o) py_object) \<and>
         assistant_config_eq
            (self\<lparr>output_folder_path := p, assistant_type := t, config_data := c,
                   function_configs := f\<rparr>)
            (AssistantConfigObj other :: ('j, 'o) py_object)
           = assistant_config_eq self (AssistantConfigObj other :: ('j, 'o) py_object) \<and>
         assistant_config_eq self (OtherObj x :: ('j, 'o) py_object) = NotImplemented"
  by auto

theorem assistant_config_eq_nine_fields_witness:
  "assistant_config_eq example_config
     (AssistantConfigObj
        (example_config\<lparr>output_folder_path := ''/tmp/elsewhere'',
                         assistant_type := ''realtime_assistant'',
                         config_data := [''k'' \<mapsto> True], function_configs := []\<rparr>)
       :: (bool, nat) py_object) = Truth True \<and>
   model example_config \<noteq> model (example_config\<lparr>model := ''gpt-4o''\<rparr>) \<and>
   assistant_config_eq example_config
     (AssistantConfigObj (example_config\<lparr>model := ''gpt-4o''\<rparr>) :: (bool, nat) py_object)
     = Truth False \<and>
   code_interpreter example_config
     \<noteq> code_interpreter (example_config\<lparr>code_interpreter := False\<rparr>) \<and>
   assistant_config_eq example_config
     (AssistantConfigObj (example_config\<lparr>code_interpreter := False\<rparr>) :: (bool, nat) py_object)
     = Truth False \<and>
   assistant_config_eq example_config (OtherObj (7::nat) :: (bool, nat) py_object)
     = NotImplemented"
  using assistant_config_eq_nine_fields
          [where self = example_config and other = example_config
             and p = "''/tmp/elsewhere''" and t = "''realtime_assistant''"
             and c = "[''k'' \<mapsto> True]" and f = "[]" and x = "7::nat"]
        assistant_config_eq_nine_fields
          [where self = example_config and other = "example_config\<lparr>model := ''gpt-4o''\<rparr>"
             and x = "7::nat"]
        assistant_config_eq_nine_fields
          [where self = example_config
             and other = "example_config\<lparr>code_interpreter := False\<rparr>" and x = "7::nat"]
  by (simp add: example_config_def)

section \<open>Properties of the stream event handler\<close>

text \<open>
  Facts about single callbacks and about streams. A handler constructed for a
  submission of tool outputs emits neither \<^verbatim>\<open>on_run_start\<close> nor
  \<^verbatim>\<open>on_run_end\<close>; a handler that has started emits no \<^verbatim>\<open>on_run_start\<close>.
\<close>

lemmas callback_defs =
  on_end_def on_message_done_def on_text_created_def on_text_delta_def on_tool_call_created_def
  on_tool_call_delta_def

lemma on_event_submit [simp]:
  "self_is_submit_tool_call (fst (on_event store h e)) = self_is_submit_tool_call h"
  by (cases e) (auto simp: callback_defs split: option.splits)

lemma on_event_fields [simp]:
  "self_name (fst (on_event store h e)) = self_name h"
  "self_thread_name (fst (on_event store h e)) = self_thread_name h"
  "self_thread_id (fst (on_event store h e)) = self_thread_id h"
  "current_run_id (fst (on_event store h e)) = current_run_id h"
  by (cases e; auto simp: callback_defs split: option.splits)+

lemma on_event_not_started:
  "\<not> content_bearing e \<Longrightarrow> self_is_started (fst (on_event store h e)) = self_is_started h"
  by (cases e) (auto simp: callback_defs content_bearing_def split: option.splits)

lemma resumed_silent_aux:
  "(self_is_submit_tool_call h \<longrightarrow>
      (\<forall>s \<in> set (fst (snd (on_event store h e))). \<not> is_run_start s \<and> \<not> is_run_end s))"
  "(self_is_submit_tool_call h \<longrightarrow>
      (\<forall>s \<in> set (snd (until_done store h es)). \<not> is_run_start s \<and> \<not> is_run_end s))"
proof (induction store h e and store h es rule: on_event_until_done.induct)
  case (12 store h ra resumed)
  then show ?case
    by (auto simp: init_def split: option.splits)
next
  case (14 store h e es)
  show ?case
  proof
    assume sub: "self_is_submit_tool_call h"
    obtain h' out err where ev: "on_event store h e = (h', out, err)"
      by (cases "on_event store h e") auto
    obtain h'' out' where ud: "until_done store h' es = (h'', out')"
      by (cases "until_done store h' es") auto
    have sub': "self_is_submit_tool_call h'"
      using on_event_submit [of store h e] sub ev by simp
    have a: "\<forall>s \<in> set out. \<not> is_run_start s \<and> \<not> is_run_end s"
      using "14.IH"(1) sub ev by simp
    have b: "\<forall>s \<in> set out'. \<not> is_run_start s \<and> \<not> is_run_end s"
      using "14.IH"(2) [OF ev [symmetric] refl] sub' ud by simp
    show "\<forall>s \<in> set (snd (until_done store h (e # es))). \<not> is_run_start s \<and> \<not> is_run_end s"
      using a b ev ud by auto
  qed
qed (auto simp: callback_defs)


lemma resumed_silent:
  "self_is_submit_tool_call h \<Longrightarrow> s \<in> set (snd (until_done store h es))
     \<Longrightarrow> \<not> is_run_start s \<and> \<not> is_run_end s"
  using resumed_silent_aux(2) by blast

lemma on_event_started:
  "self_is_started h \<Longrightarrow> self_is_started (fst (on_event store h e))"
  by (cases e) (auto simp: callback_defs split: option.splits)

lemma on_event_starts:
  "filter is_run_start (fst (snd (on_event store h e))) = []
   \<or> (\<not> self_is_started h \<and> \<not> self_is_submit_tool_call h \<and> content_bearing e \<and>
      self_is_started (fst (on_event store h e)) \<and>
      (\<exists>u. last_user_text store (self_thread_name h) = Some u \<and>
           fst (snd (on_event store h e)) = [OnRunStart (self_name h) (current_run_id h) u]))"
proof (cases e)
  case (OnToolCallDone ra resumed)
  have "\<forall>s \<in> set (snd (until_done store
          (init store (self_name h) (self_thread_id h) (current_run_id h) True) resumed)).
            \<not> is_run_start s"
    using resumed_silent [of "init store (self_name h) (self_thread_id h) (current_run_id h) True"]
    by (simp add: init_def)
  then show ?thesis
    using OnToolCallDone by (auto simp: filter_empty_conv split: option.splits)
qed (auto simp: callback_defs content_bearing_def split: option.splits)

lemma until_done_started_silent:
  "self_is_started h \<Longrightarrow> filter is_run_start (snd (until_done store h es)) = []"
proof (induction es arbitrary: h)
  case Nil
  then show ?case by simp
next
  case (Cons e es)
  obtain h' out err where ev: "on_event store h e = (h', out, err)"
    by (cases "on_event store h e") auto
  have "self_is_started h'" using on_event_started [OF Cons.prems, of store e] ev by simp
  then have "filter is_run_start (snd (until_done store h' es)) = []" by (rule Cons.IH)
  moreover have "filter is_run_start out = []"
    using on_event_starts [of store h e] Cons.prems ev by auto
  ultimately show ?case using ev by (auto split: prod.splits)
qed

lemma until_done_starts_le_1:
  "length (filter is_run_start (snd (until_done store h es))) \<le> 1"
proof (induction es arbitrary: h)
  case Nil
  then show ?case by simp
next
  case (Cons e es)
  obtain h' out err where ev: "on_event store h e = (h', out, err)"
    by (cases "on_event store h e") auto
  obtain h'' out' where ud: "until_done store h' es = (h'', out')"
    by (cases "until_done store h' es") auto
  have sg: "snd (until_done store h (e # es)) = out @ out'" using ev ud by simp
  show ?case
  proof (cases "filter is_run_start out = []")
    case True
    then show ?thesis using Cons.IH [of h'] ud sg by simp
  next
    case False
    then have st: "self_is_started h'" and one: "length (filter is_run_start out) = 1"
      using on_event_starts [of store h e] ev by auto
    have "filter is_run_start out' = []"
      using until_done_started_silent [OF st, of store es] ud by simp
    then show ?thesis using one sg by simp
  qed
qed

lemma until_done_no_content:
  "\<forall>e \<in> set es. \<not> content_bearing e \<Longrightarrow>
     filter is_run_start (snd (until_done store h es)) = [] \<and>
     self_is_started (fst (until_done store h es)) = self_is_started h \<and>
     self_is_submit_tool_call (fst (until_done store h es)) = self_is_submit_tool_call h \<and>
     self_name (fst (until_done store h es)) = self_name h \<and>
     self_thread_name (fst (until_done store h es)) = self_thread_name h \<and>
     current_run_id (fst (until_done store h es)) = current_run_id h"
proof (induction es arbitrary: h)
  case Nil
  then show ?case by simp
next
  case (Cons e es)
  obtain h' out err where ev: "on_event store h e = (h', out, err)"
    by (cases "on_event store h e") auto
  obtain h'' out' where ud: "until_done store h' es = (h'', out')"
    by (cases "until_done store h' es") auto
  have nc: "\<not> content_bearing e" using Cons.prems by simp
  have o: "filter is_run_start out = []"
    using on_event_starts [of store h e] nc ev by auto
  have h': "self_is_started h' = self_is_started h \<and> self_is_submit_tool_call h' = self_is_submit_tool_call h \<and>
            self_name h' = self_name h \<and> self_thread_name h' = self_thread_name h \<and>
            current_run_id h' = current_run_id h"
    using on_event_not_started [OF nc, of store h] on_event_submit [of store h e]
      on_event_fields [of store h e] ev by simp
  have "\<forall>e \<in> set es. \<not> content_bearing e" using Cons.prems by simp
  from Cons.IH [OF this, of h'] ud o h' ev show ?case by simp
qed

lemma until_done_append:
  "until_done store h (xs @ ys) =
     (case until_done store h xs of
        (h', out) \<Rightarrow> (case until_done store h' ys of (h'', out') \<Rightarrow> (h'', out @ out')))"
  by (induction xs arbitrary: h) (auto split: prod.splits)

lemma on_event_no_end:
  "e \<noteq> OnEnd \<Longrightarrow> filter is_run_end (fst (snd (on_event store h e))) = []"
proof (cases e)
  case (OnToolCallDone ra resumed)
  have "\<forall>s \<in> set (snd (until_done store
          (init store (self_name h) (self_thread_id h) (current_run_id h) True) resumed)).
            \<not> is_run_end s"
    using resumed_silent [of "init store (self_name h) (self_thread_id h) (current_run_id h) True"]
    by (simp add: init_def)
  then show ?thesis
    using OnToolCallDone by (auto simp: filter_empty_conv split: option.splits)
qed (auto simp: callback_defs split: option.splits)

lemma until_done_no_end:
  "OnEnd \<notin> set es \<Longrightarrow> filter is_run_end (snd (until_done store h es)) = []"
proof (induction es arbitrary: h)
  case Nil
  then show ?case by simp
next
  case (Cons e es)
  obtain h' out err where ev: "on_event store h e = (h', out, err)"
    by (cases "on_event store h e") auto
  have "filter is_run_end out = []"
    using on_event_no_end [of e store h] Cons.prems ev by auto
  moreover have "filter is_run_end (snd (until_done store h' es)) = []"
    using Cons.IH [of h'] Cons.prems by simp
  ultimately show ?case using ev by (auto split: prod.splits)
qed

lemma on_end_no_start: "filter is_run_start (fst (snd (on_event store h OnEnd))) = []"
  by (simp add: on_end_def)

lemma start_before_end_aux:
  assumes "OnEnd \<notin> set (butlast es)"
      and "sg = snd (until_done store h es)"
      and "i < length sg" "j < length sg" "is_run_start (sg ! i)" "is_run_end (sg ! j)"
  shows "i < j"
proof (cases "es = []")
  case True
  then show ?thesis using assms by simp
next
  case False
  then have es: "es = butlast es @ [last es]" by simp
  obtain h' o1 where u1: "until_done store h (butlast es) = (h', o1)"
    by (cases "until_done store h (butlast es)") auto
  obtain h'' o2 err where u2: "on_event store h' (last es) = (h'', o2, err)"
    by (cases "on_event store h' (last es)") auto
  have sg: "sg = o1 @ o2"
    using assms(2) u1 u2 until_done_append [of store h "butlast es" "[last es]"] es by simp
  have no_end1: "filter is_run_end o1 = []"
    using until_done_no_end [OF assms(1), of store h] u1 by simp
  have j2: "\<not> j < length o1"
  proof
    assume "j < length o1"
    then have "sg ! j \<in> set o1" using sg by (simp add: nth_append)
    then show False using no_end1 assms(6) by (auto simp: filter_empty_conv)
  qed
  then have "sg ! j \<in> set o2"
    using sg assms(4) by (simp add: nth_append)
  then have has_end: "filter is_run_end o2 \<noteq> []"
    using assms(6) by (auto simp: filter_empty_conv)
  then have "last es = OnEnd" using on_event_no_end [of "last es" store h'] u2 by auto
  then have "filter is_run_start o2 = []" using on_end_no_start [of store h'] u2 by simp
  have "i < length o1"
  proof (rule ccontr)
    assume "\<not> i < length o1"
    then have "sg ! i \<in> set o2" using sg assms(3) by (simp add: nth_append)
    then show False using \<open>filter is_run_start o2 = []\<close> assms(5) by (auto simp: filter_empty_conv)
  qed
  then show ?thesis using j2 by simp
qed


lemma run_start_at_first_content:
  assumes "\<forall>x \<in> set pre. \<not> content_bearing x" and "content_bearing e"
  shows "run_signals store n tid rid (pre @ [e]) =
           run_signals store n tid rid pre @
             (case last_user_text store (get_thread_name_by_id store tid) of
                Some u \<Rightarrow> [OnRunStart n rid u] | None \<Rightarrow> [])"
proof -
  let ?h0 = "init store n tid rid False"
  obtain h' o1 where u1: "until_done store ?h0 pre = (h', o1)"
    by (cases "until_done store ?h0 pre") auto
  have f: "\<not> self_is_started h'" "\<not> self_is_submit_tool_call h'" "self_name h' = n"
          "self_thread_name h' = get_thread_name_by_id store tid" "current_run_id h' = rid"
    using until_done_no_content [OF assms(1), of store ?h0] u1 by (simp_all add: init_def)
  have "fst (snd (on_event store h' e)) =
          (case last_user_text store (get_thread_name_by_id store tid) of
             Some u \<Rightarrow> [OnRunStart n rid u] | None \<Rightarrow> [])"
    using assms(2) f
    by (auto simp: content_bearing_def on_text_created_def on_tool_call_created_def
             split: option.splits)
  then show ?thesis
    using u1 until_done_append [of store ?h0 pre "[e]"]
    by (simp add: run_signals_def split: prod.splits)
qed

text \<open>
  C1. In every run \<^verbatim>\<open>on_run_start\<close> is emitted at most once. Submission alone
  (no callback yet) emits nothing, and as long as no content-bearing callback (first
  text, first tool call) has arrived there is no \<^verbatim>\<open>on_run_start\<close>: it is emitted
  by the first content-bearing callback, with the user's request, or not by that
  callback when the request cannot be read. When the stream's end callback is the last
  callback of the stream, as the provider's contract has it (no event after the
  terminal one), every \<^verbatim>\<open>on_run_start\<close> comes strictly before every
  \<^verbatim>\<open>on_run_end\<close> of the run.
\<close>

theorem run_start_once_before_end:
  "length (filter is_run_start (run_signals store n tid rid es)) \<le> 1 \<and>
   run_signals store n tid rid [] = [] \<and>
   ((\<forall>x \<in> set es. \<not> content_bearing x) \<longrightarrow>
      filter is_run_start (run_signals store n tid rid es) = []) \<and>
   ((\<forall>x \<in> set pre. \<not> content_bearing x) \<and> content_bearing e \<longrightarrow>
      run_signals store n tid rid (pre @ [e]) =
        run_signals store n tid rid pre @
          (case last_user_text store (get_thread_name_by_id store tid) of
             Some u \<Rightarrow> [OnRunStart n rid u] | None \<Rightarrow> [])) \<and>
   (OnEnd \<notin> set (butlast es) \<longrightarrow>
      (\<forall>i j. i < length (run_signals store n tid rid es) \<and>
             j < length (run_signals store n tid rid es) \<and>
             is_run_start (run_signals store n tid rid es ! i) \<and>
             is_run_end (run_signals store n tid rid es ! j) \<longrightarrow> i < j))"
proof (intro conjI impI allI)
  show "length (filter is_run_start (run_signals store n tid rid es)) \<le> 1"
    unfolding run_signals_def by (rule until_done_starts_le_1)
  show "run_signals store n tid rid [] = []"
    by (simp add: run_signals_def)
  show "filter is_run_start (run_signals store n tid rid es) = []"
    if "\<forall>x \<in> set es. \<not> content_bearing x"
    using until_done_no_content [OF that] by (simp add: run_signals_def)
  show "run_signals store n tid rid (pre @ [e]) =
          run_signals store n tid rid pre @
            (case last_user_text store (get_thread_name_by_id store tid) of
               Some u \<Rightarrow> [OnRunStart n rid u] | None \<Rightarrow> [])"
    if "(\<forall>x \<in> set pre. \<not> content_bearing x) \<and> content_bearing e"
    using that run_start_at_first_content by blast
  show "i < j"
    if "OnEnd \<notin> set (butlast es)"
      and "i < length (run_signals store n tid rid es) \<and>
           j < length (run_signals store n tid rid es) \<and>
           is_run_start (run_signals store n tid rid es ! i) \<and>
           is_run_end (run_signals store n tid rid es ! j)" for i j
    using that start_before_end_aux [of es "run_signals store n tid rid es" store
        "init store n tid rid False" i j]
    by (simp add: run_signals_def)
qed

theorem run_start_once_before_end_witness:
  "OnEnd \<notin> set (butlast example_stream) \<and>
   run_signals example_store ''A'' ''thread_1'' ''run_1'' example_stream =
     [OnRunStart ''A'' ''run_1'' ''What is the weather?'',
      OnRunUpdate ''A'' ''run_1'' ''streaming'' ''Thread 1'' True (Some ''Let me ''),
      OnRunUpdate ''A'' ''run_1'' ''streaming'' ''Thread 1'' False (Some ''check.''),
      OnRunUpdate ''A'' ''run_1'' ''streaming'' ''Thread 1'' True (Some ''It is ''),
      OnRunUpdate ''A'' ''run_1'' ''streaming'' ''Thread 1'' False (Some ''sunny.''),
      OnRunUpdate ''A'' ''run_1'' ''completed'' ''Thread 1'' False None,
      OnRunEnd ''A'' ''run_1'' ''Thread 1''] \<and>
   content_bearing OnTextCreated \<and>
   run_signals example_store ''A'' ''thread_1'' ''run_1'' ([] @ [OnTextCreated]) =
     run_signals example_store ''A'' ''thread_1'' ''run_1'' [] @
       [OnRunStart ''A'' ''run_1'' ''What is the weather?''] \<and>
   length (filter is_run_start
     (run_signals example_store ''A'' ''thread_1'' ''run_1'' example_stream)) \<le> 1 \<and>
   is_run_start (run_signals example_store ''A'' ''thread_1'' ''run_1'' example_stream ! 0) \<and>
   is_run_end (run_signals example_store ''A'' ''thread_1'' ''run_1'' example_stream ! 6) \<and>
   (0::nat) < 6"
  using run_start_once_before_end
    [of example_store "''A''" "''thread_1''" "''run_1''" example_stream "[]" OnTextCreated]
  by (simp add: run_signals_def example_store_def example_stream_def init_def callback_defs
        content_bearing_def)

text \<open>
  Streaming updates: each handler flags the first delta it receives.
\<close>

lemma delta_flags_Cons:
  "delta_flags b (e # es) =
     delta_flags b [e] @ delta_flags (case e of OnTextDelta v \<Rightarrow> False | _ \<Rightarrow> b) es"
  by (cases e) auto

lemma on_event_first_message:
  "self_is_first_message (fst (on_event store h e)) =
     (case e of OnTextDelta v \<Rightarrow> False | _ \<Rightarrow> self_is_first_message h)"
  by (cases e) (auto simp: callback_defs split: option.splits)

lemma streaming_deltas_aux:
  "map update_message (filter is_streaming (fst (snd (on_event store h e)))) = map Some (text_deltas e)
   \<and> map update_is_first (filter is_streaming (fst (snd (on_event store h e))))
       = delta_flags (self_is_first_message h) [e]"
  "map update_message (filter is_streaming (snd (until_done store h es))) = map Some (stream_deltas es)
   \<and> map update_is_first (filter is_streaming (snd (until_done store h es)))
       = delta_flags (self_is_first_message h) es"
proof (induction store h e and store h es rule: on_event_until_done.induct)
  case (12 store h ra resumed)
  then show ?case by (auto simp: init_def split: option.splits)
next
  case (14 store h e es)
  obtain h' out err where ev: "on_event store h e = (h', out, err)"
    by (cases "on_event store h e") auto
  obtain h'' out' where ud: "until_done store h' es = (h'', out')"
    by (cases "until_done store h' es") auto
  have fm: "self_is_first_message h' = (case e of OnTextDelta v \<Rightarrow> False | _ \<Rightarrow> self_is_first_message h)"
    using on_event_first_message [of store h e] ev by simp
  have a: "map update_message (filter is_streaming out) = map Some (text_deltas e)"
          "map update_is_first (filter is_streaming out) = delta_flags (self_is_first_message h) [e]"
    using "14.IH"(1) ev by simp_all
  have b: "map update_message (filter is_streaming out') = map Some (stream_deltas es)"
          "map update_is_first (filter is_streaming out') = delta_flags (self_is_first_message h') es"
    using "14.IH"(2) [OF ev [symmetric] refl] ud by simp_all
  have sg: "snd (until_done store h (e # es)) = out @ out'" using ev ud by simp
  show ?case
    unfolding sg using a b fm delta_flags_Cons [of "self_is_first_message h" e es] by simp
qed (auto simp: callback_defs is_streaming_def split: option.splits)

text \<open>
  C4, as amended. Each text delta produces exactly one \<^verbatim>\<open>on_run_update\<close> with
  status \<^verbatim>\<open>streaming\<close> that carries the delta, in the order of delivery. Its
  first-chunk flag is the handler's \<^verbatim>\<open>_is_first_message\<close>, which every handler
  starts with true and which is false after the handler's first delta: the flag is
  true for the first delta of each handler, that is for the first delta of the run's
  own stream and again for the first delta of every stream resumed by a submission of
  tool outputs.
\<close>

theorem streaming_updates_first_per_handler:
  "map update_message (filter is_streaming (snd (until_done store h es))) = map Some (stream_deltas es)
   \<and> map update_is_first (filter is_streaming (snd (until_done store h es)))
       = delta_flags (self_is_first_message h) es
   \<and> fst (snd (on_event store h (OnTextDelta v))) =
       [OnRunUpdate (self_name h) (current_run_id h) ''streaming'' (self_thread_name h)
          (self_is_first_message h) (Some v)]
   \<and> \<not> self_is_first_message (fst (on_event store h (OnTextDelta v)))
   \<and> self_is_first_message (init store n tid rid submit)"
  using streaming_deltas_aux(2) [of store h es]
  by (simp add: on_text_delta_def init_def)

text \<open>
  C4 as stated fails: in the run of \<open>example_stream\<close> two deltas arrive before the
  tool call and two after the resume, and the third delta, the first after the resume,
  carries the flag true again.
\<close>

theorem first_chunk_again_after_resume:
  "map update_is_first
     (filter is_streaming (run_signals example_store ''A'' ''thread_1'' ''run_1'' example_stream))
   = [True, False, True, False]"
  by (simp add: run_signals_def example_store_def example_stream_def init_def callback_defs
        is_streaming_def)

text \<open>
  The handler never emits an update with status \<^verbatim>\<open>in_progress\<close>.
\<close>

lemma never_in_progress_aux:
  "filter is_in_progress (fst (snd (on_event store h e))) = []"
  "filter is_in_progress (snd (until_done store h es)) = []"
proof (induction store h e and store h es rule: on_event_until_done.induct)
  case (12 store h ra resumed)
  then show ?case by (auto split: option.splits)
next
  case (14 store h e es)
  obtain h' out err where ev: "on_event store h e = (h', out, err)"
    by (cases "on_event store h e") auto
  obtain h'' out' where ud: "until_done store h' es = (h'', out')"
    by (cases "until_done store h' es") auto
  show ?case
    using "14.IH"(1) "14.IH"(2) [OF ev [symmetric] refl] ev ud by simp
qed (auto simp: callback_defs is_in_progress_def split: option.splits)

text \<open>
  C5, as amended. For a fully materialised message (\<^verbatim>\<open>on_message_done\<close>) the
  handler emits one \<^verbatim>\<open>on_run_update\<close> with status \<^verbatim>\<open>completed\<close>, the default
  first-chunk flag and no message; no stream makes it emit an update with status
  \<^verbatim>\<open>in_progress\<close>.
\<close>

theorem message_done_completed:
  "on_event store h (OnMessageDone message) =
     (h, [OnRunUpdate (self_name h) (current_run_id h) ''completed'' (self_thread_name h) False None],
      None)
   \<and> filter is_in_progress (snd (until_done store h es)) = []"
  using never_in_progress_aux(2) [of store h es] by (simp add: on_message_done_def)

text \<open>
  C5 as stated fails: the signal for a complete message has status
  \<^verbatim>\<open>completed\<close>, not \<^verbatim>\<open>in_progress\<close>, and carries no message.
\<close>

theorem message_done_not_in_progress:
  "run_signals example_store ''A'' ''thread_1'' ''run_1'' [OnMessageDone ''It is sunny.'']
     = [OnRunUpdate ''A'' ''run_1'' ''completed'' ''Thread 1'' False None]
   \<and> filter is_in_progress
        (run_signals example_store ''A'' ''thread_1'' ''run_1'' [OnMessageDone ''It is sunny.'']) = []"
  by (simp add: run_signals_def example_store_def init_def callback_defs is_in_progress_def)

section \<open>Properties of the attachment reconciliation\<close>

lemmas example_defs = example_env_def example_window_def

lemma emit_simps [simp]:
  "emitted (emit s w) = emitted w @ [s]"
  "scheduled_task_threads (emit s w) = scheduled_task_threads w"
  "use_system_assistant_for_thread_name (emit s w) = use_system_assistant_for_thread_name w"
  "thread_client_present (emit s w) = thread_client_present w"
  "has_conversation_title_creator (emit s w) = has_conversation_title_creator w"
  "thread_attachments (emit s w) = thread_attachments w"
  "collaborators (emit s w) = collaborators w"
  by (simp_all add: emit_def)

lemma remove_attachments_ok:
  assumes "\<forall>x fid. snd (files_delete env x fid) = None"
  shows "snd (remove_attachments env tid as w) = None \<and>
         emitted (fst (remove_attachments env tid as w))
           = emitted w @ concat (map (removal_calls tid) as) \<and>
         (\<forall>t. thread_attachments (fst (remove_attachments env tid as w)) t
           = (if t = tid
              then filter (\<lambda>b. file_id b \<notin> file_id ` set as) (thread_attachments w tid)
              else thread_attachments w t))"
proof (induction as arbitrary: w)
  case Nil
  then show ?case by simp
next
  case (Cons a as)
  let ?w1 = "emit (RemoveAttachmentFromThread tid (file_id a))
               (w\<lparr>thread_attachments :=
                    remove_attachment_from_thread (thread_attachments w) tid (file_id a)\<rparr>)"
  have flt: "filter (\<lambda>b. file_id b \<notin> file_id ` set as) (filter (\<lambda>b. file_id b \<noteq> file_id a) xs)
             = filter (\<lambda>b. file_id b \<notin> file_id ` set (a # as)) xs" for xs
    by (induction xs) auto
  show ?case
  proof (cases "attachment_type a \<noteq> IMAGE_FILE")
    case True
    obtain x where fd: "files_delete env (collaborators ?w1) (file_id a) = (x, None)"
      using assms by (metis prod.collapse)
    let ?w2 = "emit (FilesDelete (file_id a)) (?w1\<lparr>collaborators := x\<rparr>)"
    have step: "remove_attachments env tid (a # as) w = remove_attachments env tid as ?w2"
      using True fd by (simp add: Let_def)
    show ?thesis
      unfolding step using Cons.IH [of ?w2] True
      by (simp add: removal_calls_def remove_attachment_from_thread_def flt)
  next
    case False
    have step: "remove_attachments env tid (a # as) w = remove_attachments env tid as ?w1"
      using False by (simp add: Let_def)
    show ?thesis
      unfolding step using Cons.IH [of ?w1] False
      by (simp add: removal_calls_def remove_attachment_from_thread_def flt)
  qed
qed


lemma remove_attachments_done:
  "snd (remove_attachments env tid as w) = None \<Longrightarrow>
     emitted (fst (remove_attachments env tid as w))
       = emitted w @ concat (map (removal_calls tid) as) \<and>
     (\<forall>t. thread_attachments (fst (remove_attachments env tid as w)) t
       = (if t = tid
          then filter (\<lambda>b. file_id b \<notin> file_id ` set as) (thread_attachments w tid)
          else thread_attachments w t))"
proof (induction as arbitrary: w)
  case Nil
  then show ?case by simp
next
  case (Cons a as)
  let ?w1 = "emit (RemoveAttachmentFromThread tid (file_id a))
               (w\<lparr>thread_attachments :=
                    remove_attachment_from_thread (thread_attachments w) tid (file_id a)\<rparr>)"
  have flt: "filter (\<lambda>b. file_id b \<notin> file_id ` set as) (filter (\<lambda>b. file_id b \<noteq> file_id a) xs)
             = filter (\<lambda>b. file_id b \<notin> file_id ` set (a # as)) xs" for xs
    by (induction xs) auto
  show ?case
  proof (cases "attachment_type a \<noteq> IMAGE_FILE")
    case True
    obtain x err where fd: "files_delete env (collaborators ?w1) (file_id a) = (x, err)"
      by (cases "files_delete env (collaborators ?w1) (file_id a)") auto
    have "err = None"
      using Cons.prems True fd by (cases err) (simp_all add: Let_def)
    let ?w2 = "emit (FilesDelete (file_id a)) (?w1\<lparr>collaborators := x\<rparr>)"
    have step: "remove_attachments env tid (a # as) w = remove_attachments env tid as ?w2"
      using True fd \<open>err = None\<close> by (simp add: Let_def)
    show ?thesis
      using Cons.IH [of ?w2] Cons.prems True unfolding step
      by (simp add: removal_calls_def remove_attachment_from_thread_def flt)
  next
    case False
    have step: "remove_attachments env tid (a # as) w = remove_attachments env tid as ?w1"
      using False by (simp add: Let_def)
    show ?thesis
      using Cons.IH [of ?w1] Cons.prems False unfolding step
      by (simp add: removal_calls_def remove_attachment_from_thread_def flt)
  qed
qed

lemma kept_have_submitted_ids:
  "filter (\<lambda>att. PyStr (file_id att) \<notin> set ids)
     (filter (\<lambda>b. file_id b \<notin> file_id ` set (filter (\<lambda>att. PyStr (file_id att) \<notin> set ids) xs)) xs)
   = []"
  by (auto simp: filter_empty_conv)




text \<open>
  C8. Reconciliation is idempotent: when a first reconciliation has returned normally
  (or, with remote deletions that never fail, in any case), a second one with the same
  submitted attachments returns the same outcome and leaves the window as it is; in
  particular it adds no effect to the log, so it makes no further call to detach an
  attachment or to delete a file.
\<close>

theorem reconciliation_idempotent:
  assumes "update_attachments_from_ui_to_thread env w tid attachments_dicts = (w1, e1)"
      and "e1 = None \<or> (\<forall>x fid. snd (files_delete env x fid) = None)"
  shows "update_attachments_from_ui_to_thread env w1 tid attachments_dicts = (w1, e1)"
proof (cases attachments_dicts)
  case None
  then show ?thesis
    using assms(1) by (auto simp: update_attachments_from_ui_to_thread_def)
next
  case (Some dicts)
  show ?thesis
  proof (cases "file_ids dicts")
    case (Inl e)
    then show ?thesis
      using assms(1) Some by (auto simp: update_attachments_from_ui_to_thread_def)
  next
    case (Inr ids)
    let ?removed = "filter (\<lambda>att. PyStr (file_id att) \<notin> set ids) (thread_attachments w tid)"
    have r: "remove_attachments env tid ?removed w = (w1, e1)"
      using assms(1) Some Inr
      by (simp add: update_attachments_from_ui_to_thread_def get_attachments_of_thread_def)
    have e1: "e1 = None"
      using assms(2) remove_attachments_ok [of env tid ?removed w] r by auto
    have "thread_attachments w1 tid
            = filter (\<lambda>b. file_id b \<notin> file_id ` set ?removed) (thread_attachments w tid)"
      using remove_attachments_done [of env tid ?removed w] r e1 by simp
    then have "filter (\<lambda>att. PyStr (file_id att) \<notin> set ids) (thread_attachments w1 tid) = []"
      using kept_have_submitted_ids [of ids "thread_attachments w tid"] by simp
    then show ?thesis
      using Some Inr e1
      by (simp add: update_attachments_from_ui_to_thread_def get_attachments_of_thread_def)
  qed
qed

theorem reconciliation_idempotent_witness:
  "snd (update_attachments_from_ui_to_thread example_env example_window ''thread_1''
          (Some [[''file_id'' \<mapsto> PyStr ''f3'']])) = None \<and>
   emitted (fst (update_attachments_from_ui_to_thread example_env example_window ''thread_1''
                   (Some [[''file_id'' \<mapsto> PyStr ''f3'']])))
     = [RemoveAttachmentFromThread ''thread_1'' ''f1'', FilesDelete ''f1'',
        RemoveAttachmentFromThread ''thread_1'' ''f2''] \<and>
   update_attachments_from_ui_to_thread example_env
     (fst (update_attachments_from_ui_to_thread example_env example_window ''thread_1''
             (Some [[''file_id'' \<mapsto> PyStr ''f3'']])))
     ''thread_1'' (Some [[''file_id'' \<mapsto> PyStr ''f3'']])
   = (fst (update_attachments_from_ui_to_thread example_env example_window ''thread_1''
             (Some [[''file_id'' \<mapsto> PyStr ''f3'']])), None)"
proof -
  let ?r = "update_attachments_from_ui_to_thread example_env example_window ''thread_1''
             (Some [[''file_id'' \<mapsto> PyStr ''f3'']])"
  have e: "snd ?r = None"
    by (simp add: example_defs update_attachments_from_ui_to_thread_def
          get_attachments_of_thread_def Let_def)
  have l: "emitted (fst ?r)
     = [RemoveAttachmentFromThread ''thread_1'' ''f1'', FilesDelete ''f1'',
        RemoveAttachmentFromThread ''thread_1'' ''f2'']"
    by (simp add: example_defs update_attachments_from_ui_to_thread_def
          get_attachments_of_thread_def Let_def)
  have p: "?r = (fst ?r, None)" using e by (metis prod.collapse)
  show ?thesis
    using e l reconciliation_idempotent [OF p] by simp
qed

section \<open>Properties of the processing signals\<close>

lemma trace_neutral_append:
  "\<forall>e \<in> set xs. neutral e \<Longrightarrow>
     processing_trace_ok cur (xs @ ys) = processing_trace_ok cur ys"
proof (induction xs)
  case Nil
  then show ?case by simp
next
  case (Cons x xs)
  then show ?case by (cases x) simp_all
qed

lemma remove_attachments_neutral:
  "\<exists>new. emitted (fst (remove_attachments env tid as w)) = emitted w @ new \<and>
         (\<forall>e \<in> set new. neutral e)"
proof (induction as arbitrary: w)
  case Nil
  then show ?case by simp
next
  case (Cons a as)
  let ?w1 = "emit (RemoveAttachmentFromThread tid (file_id a))
               (w\<lparr>thread_attachments :=
                    remove_attachment_from_thread (thread_attachments w) tid (file_id a)\<rparr>)"
  show ?case
  proof (cases "attachment_type a \<noteq> IMAGE_FILE")
    case True
    obtain x err where fd: "files_delete env (collaborators ?w1) (file_id a) = (x, err)"
      by (cases "files_delete env (collaborators ?w1) (file_id a)") auto
    let ?w2 = "emit (FilesDelete (file_id a)) (?w1\<lparr>collaborators := x\<rparr>)"
    show ?thesis
    proof (cases err)
      case None
      then have step: "remove_attachments env tid (a # as) w = remove_attachments env tid as ?w2"
        using True fd by (simp add: Let_def)
      obtain new where "emitted (fst (remove_attachments env tid as ?w2)) = emitted ?w2 @ new"
        "\<forall>e \<in> set new. neutral e"
        using Cons.IH [of ?w2] by blast
      then show ?thesis unfolding step
        by (intro exI [of _ "[RemoveAttachmentFromThread tid (file_id a), FilesDelete (file_id a)] @ new"])
           simp
    next
      case (Some e)
      then have "remove_attachments env tid (a # as) w = (?w2, Some e)"
        using True fd by (simp add: Let_def)
      then show ?thesis
        by (intro exI [of _ "[RemoveAttachmentFromThread tid (file_id a), FilesDelete (file_id a)]"])
           simp
    qed
  next
    case False
    have step: "remove_attachments env tid (a # as) w = remove_attachments env tid as ?w1"
      using False by (simp add: Let_def)
    obtain new where "emitted (fst (remove_attachments env tid as ?w1)) = emitted ?w1 @ new"
      "\<forall>e \<in> set new. neutral e"
      using Cons.IH [of ?w1] by blast
    then show ?thesis unfolding step
      by (intro exI [of _ "[RemoveAttachmentFromThread tid (file_id a)] @ new"]) simp
  qed
qed

lemma update_attachments_neutral:
  "\<exists>new. emitted (fst (update_attachments_from_ui_to_thread env w tid d)) = emitted w @ new \<and>
         (\<forall>e \<in> set new. neutral e)"
  using remove_attachments_neutral [of env tid _ w]
  by (auto simp: update_attachments_from_ui_to_thread_def split: option.splits sum.splits)

lemma create_thread_message_neutral:
  "\<exists>new. emitted (fst (create_thread_message env w ui tn d)) = emitted w @ new \<and>
         (\<forall>e \<in> set new. neutral e)"
  by (auto simp: create_thread_message_def split: option.splits sum.splits prod.splits)

lemma process_assistant_input_trace:
  "\<exists>new. emitted (fst (process_assistant_input env w a tn s)) = emitted w @ new \<and>
         (\<forall>rest. processing_trace_ok None (new @ rest) =
            (case snd (process_assistant_input env w a tn s) of
               None \<Rightarrow> processing_trace_ok None rest
             | Some e \<Rightarrow> processing_trace_ok (Some (a, s)) rest))"
proof (cases "get_client env (collaborators w) a")
  case None
  then show ?thesis
    by (intro exI [of _ "[StartProcessing a s, StopProcessing a s]"])
       (simp add: process_assistant_input_def Let_def)
next
  case (Some c)
  obtain x err where pm: "process_messages env (collaborators w) a tn = (x, err)"
    by (cases "process_messages env (collaborators w) a tn") auto
  show ?thesis
  proof (cases err)
    case None
    then show ?thesis using Some pm
      by (intro exI [of _ "[StartProcessing a s, ProcessMessages a tn, StopProcessing a s]"])
         (simp add: process_assistant_input_def Let_def)
  next
    case (Some e)
    then show ?thesis using \<open>get_client env (collaborators w) a = Some c\<close> pm
      by (intro exI [of _ "[StartProcessing a s, ProcessMessages a tn]"])
         (simp add: process_assistant_input_def Let_def)
  qed
qed

lemma process_assistants_trace:
  "\<exists>new. emitted (fst (process_assistants env w as tn s)) = emitted w @ new \<and>
         (\<forall>rest. processing_trace_ok None (new @ rest) =
            (case snd (process_assistants env w as tn s) of
               None \<Rightarrow> processing_trace_ok None rest
             | Some (a, e) \<Rightarrow> processing_trace_ok (Some (a, s)) rest))"
proof (induction as arbitrary: w)
  case Nil
  then show ?case by simp
next
  case (Cons a as)
  obtain w' err where pa: "process_assistant_input env w a tn s = (w', err)"
    by (cases "process_assistant_input env w a tn s") auto
  obtain new where new: "emitted w' = emitted w @ new"
    "\<And>rest. processing_trace_ok None (new @ rest) =
            (case err of None \<Rightarrow> processing_trace_ok None rest
             | Some e \<Rightarrow> processing_trace_ok (Some (a, s)) rest)"
    using process_assistant_input_trace [of env w a tn s] pa by auto
  show ?case
  proof (cases err)
    case None
    obtain new' where new': "emitted (fst (process_assistants env w' as tn s)) = emitted w' @ new'"
      "\<And>rest. processing_trace_ok None (new' @ rest) =
            (case snd (process_assistants env w' as tn s) of
               None \<Rightarrow> processing_trace_ok None rest
             | Some (a, e) \<Rightarrow> processing_trace_ok (Some (a, s)) rest)"
      using Cons.IH [of w'] by blast
    show ?thesis
      using pa None new new'
      by (intro exI [of _ "new @ new'"]) simp
  next
    case (Some e)
    then show ?thesis using pa new by (intro exI [of _ new]) simp
  qed
qed


lemma process_input_try_trace:
  "\<exists>new. emitted (fst (process_input_try env w ui as tn s d)) = emitted w @ new \<and>
         (\<forall>rest. processing_trace_ok None (new @ rest) =
            (case snd (process_input_try env w ui as tn s d) of
               None \<Rightarrow> processing_trace_ok None rest
             | Some (None, e) \<Rightarrow> processing_trace_ok None rest
             | Some (Some a, e) \<Rightarrow> processing_trace_ok (Some (a, s)) rest))"
proof (cases "thread_client_present w")
  case False
  then show ?thesis by (intro exI [of _ "[]"]) (simp add: process_input_try_def)
next
  case True
  define tid where "tid = get_thread_id_by_name env (collaborators w) tn"
  obtain w1 e1 where u: "update_attachments_from_ui_to_thread env w tid d = (w1, e1)"
    by (cases "update_attachments_from_ui_to_thread env w tid d") auto
  obtain n1 where n1: "emitted w1 = emitted w @ n1" "\<forall>e \<in> set n1. neutral e"
    using update_attachments_neutral [of env w tid d] u by auto
  show ?thesis
  proof (cases e1)
    case (Some e)
    then have "process_input_try env w ui as tn s d = (w1, Some (None, e))"
      using True u by (simp add: process_input_try_def tid_def)
    then show ?thesis using n1 by (intro exI [of _ n1]) (simp add: trace_neutral_append)
  next
    case None
    obtain w2 e2 where c: "create_thread_message env w1 ui tn d = (w2, e2)"
      by (cases "create_thread_message env w1 ui tn d") auto
    obtain n2 where n2: "emitted w2 = emitted w1 @ n2" "\<forall>e \<in> set n2. neutral e"
      using create_thread_message_neutral [of env w1 ui tn d] c by auto
    show ?thesis
    proof (cases e2)
      case (Some e)
      then have "process_input_try env w ui as tn s d = (w2, Some (None, e))"
        using True u None c by (simp add: process_input_try_def tid_def)
      then show ?thesis using n1 n2
        by (intro exI [of _ "n1 @ n2"]) (simp add: trace_neutral_append)
    next
      case e2None: None
      define w3 where "w3 = update_attachments_in_ui_from_thread w2 tid"
      define n3 where "n3 = n1 @ n2 @
          [SetAttachmentsForSelectedThread (get_attachments_of_thread (thread_attachments w2) tid)]"
      have n3: "emitted w3 = emitted w @ n3" "\<forall>e \<in> set n3. neutral e"
        using n1 n2 by (simp_all add: w3_def n3_def update_attachments_in_ui_from_thread_def ball_Un)
      show ?thesis
      proof (cases "retrieve_conversation env (collaborators w3) tn")
        case rNone: None
        then have "process_input_try env w ui as tn s d = (w3, Some (None, CollaboratorError))"
          using True u None c e2None
          by (simp add: process_input_try_def tid_def w3_def Let_def)
        then show ?thesis using n3
          by (intro exI [of _ n3]) (simp add: trace_neutral_append)
      next
        case (Some conv)
        define w4 where "w4 = update_conversation_messages w3 conv"
        define n4 where "n4 = n3 @ [ConversationViewClear, ConversationAppendMessages conv]"
        have n4: "emitted w4 = emitted w @ n4" "\<forall>e \<in> set n4. neutral e"
          using n3 by (simp_all add: w4_def n4_def update_conversation_messages_def ball_Un)
        obtain n5 where n5: "emitted (fst (process_assistants env w4 as tn s)) = emitted w4 @ n5"
          "\<And>rest. processing_trace_ok None (n5 @ rest) =
            (case snd (process_assistants env w4 as tn s) of
               None \<Rightarrow> processing_trace_ok None rest
             | Some (a, e) \<Rightarrow> processing_trace_ok (Some (a, s)) rest)"
          using process_assistants_trace [of env w4 as tn s] by blast
        have eq: "process_input_try env w ui as tn s d =
                    (case process_assistants env w4 as tn s of
                       (w5, Some (assistant_name, e)) \<Rightarrow> (w5, Some (Some assistant_name, e))
                     | (w5, None) \<Rightarrow> (w5, None))"
          using True u None c e2None Some
          by (simp add: process_input_try_def tid_def w3_def w4_def Let_def)
        show ?thesis
          unfolding eq using n4 n5
          by (intro exI [of _ "n4 @ n5"])
             (auto simp: trace_neutral_append split: prod.splits option.splits)
      qed
    qed
  qed
qed

lemma process_input_trace:
  "\<exists>new. emitted (fst (process_input env w ui as tn s d)) = emitted w @ new \<and>
         processing_trace_ok None new"
proof -
  obtain w' r where t: "process_input_try env w ui as tn s d = (w', r)"
    by (cases "process_input_try env w ui as tn s d") auto
  obtain new where new: "emitted w' = emitted w @ new"
    "\<And>rest. processing_trace_ok None (new @ rest) =
            (case r of
               None \<Rightarrow> processing_trace_ok None rest
             | Some (None, e) \<Rightarrow> processing_trace_ok None rest
             | Some (Some a, e) \<Rightarrow> processing_trace_ok (Some (a, s)) rest)"
    using process_input_try_trace [of env w ui as tn s d] t by auto
  show ?thesis
  proof (cases r)
    case None
    then show ?thesis using t new(1) new(2) [of "[]"]
      by (intro exI [of _ new]) (simp add: process_input_def)
  next
    case (Some be)
    obtain b e where be: "be = (b, e)" by (cases be) auto
    show ?thesis
    proof (cases b)
      case None
      then show ?thesis using t Some be new(1) new(2) [of "[ErrorSignal e]"]
        by (intro exI [of _ "new @ [ErrorSignal e]"]) (simp add: process_input_def)
    next
      case (Some a)
      then show ?thesis
        using t \<open>r = Some be\<close> be new(1) new(2) [of "[ErrorSignal e, StopProcessing a s]"]
        by (intro exI [of _ "new @ [ErrorSignal e, StopProcessing a s]"])
           (simp add: process_input_def)
    qed
  qed
qed

text \<open>
  Without attachments, which is how \<^verbatim>\<open>handle_execution\<close> calls it,
  \<^verbatim>\<open>process_input\<close> fails before the loop: iterating over \<^verbatim>\<open>None\<close> raises
  \<^verbatim>\<open>TypeError\<close> (or the missing thread client raises \<^verbatim>\<open>AttributeError\<close>), the
  handler emits the error signal, and reading the unbound \<^verbatim>\<open>assistant_name\<close> for
  the stop signal raises \<^verbatim>\<open>UnboundLocalError\<close>. No assistant is processed.
\<close>

lemma process_input_without_attachments:
  "process_input env w user_input assistants thread_name is_scheduled_task None =
     (emit (ErrorSignal (if thread_client_present w then TypeError else AttributeError)) w,
      Some UnboundLocalError)"
  by (simp add: process_input_def process_input_try_def update_attachments_from_ui_to_thread_def
        Let_def)

lemma handle_execution_raises:
  "\<not> use_system_assistant_for_thread_name w \<Longrightarrow>
   snd (handle_execution env w user_request schedule_id assistant_name) = Some UnboundLocalError"
  by (simp add: handle_execution_def Let_def process_input_without_attachments)

text \<open>
  The body of \<^verbatim>\<open>try\<close> is the statements before the loop, then the loop; the
  statements before the loop emit no start or stop signal; and the loop, with the
  handler's signals after an exception, gives exactly \<open>processing_log\<close>.
\<close>

lemma process_input_try_setup:
  "process_input_try env w ui as tn s d =
     (case process_input_setup env w ui tn d of
        (w0, Some e) \<Rightarrow> (w0, Some (None, e))
      | (w0, None) \<Rightarrow>
          (case process_assistants env w0 as tn s of
             (w5, Some (a, e)) \<Rightarrow> (w5, Some (Some a, e))
           | (w5, None) \<Rightarrow> (w5, None)))"
proof (cases "thread_client_present w")
  case False
  then show ?thesis by (simp add: process_input_try_def process_input_setup_def)
next
  case True
  define tid where "tid = get_thread_id_by_name env (collaborators w) tn"
  obtain w1 e1 where u: "update_attachments_from_ui_to_thread env w tid d = (w1, e1)"
    by (cases "update_attachments_from_ui_to_thread env w tid d") auto
  show ?thesis
  proof (cases e1)
    case (Some e)
    then show ?thesis using True u
      by (simp add: process_input_try_def process_input_setup_def tid_def)
  next
    case None
    obtain w2 e2 where c: "create_thread_message env w1 ui tn d = (w2, e2)"
      by (cases "create_thread_message env w1 ui tn d") auto
    show ?thesis
    proof (cases e2)
      case (Some e)
      then show ?thesis using True u None c
        by (simp add: process_input_try_def process_input_setup_def tid_def)
    next
      case e2None: None
      show ?thesis
      proof (cases "retrieve_conversation env
                      (collaborators (update_attachments_in_ui_from_thread w2 tid)) tn")
        case rNone: None
        then show ?thesis using True u None c e2None
          by (simp add: process_input_try_def process_input_setup_def tid_def Let_def)
      next
        case (Some conv)
        then show ?thesis using True u None c e2None
          by (simp add: process_input_try_def process_input_setup_def tid_def Let_def)
      qed
    qed
  qed
qed

lemma process_input_setup_neutral:
  "\<exists>pre. emitted (fst (process_input_setup env w ui tn d)) = emitted w @ pre \<and>
         (\<forall>e \<in> set pre. neutral e)"
proof (cases "thread_client_present w")
  case False
  then show ?thesis by (simp add: process_input_setup_def)
next
  case True
  define tid where "tid = get_thread_id_by_name env (collaborators w) tn"
  obtain w1 e1 where u: "update_attachments_from_ui_to_thread env w tid d = (w1, e1)"
    by (cases "update_attachments_from_ui_to_thread env w tid d") auto
  obtain n1 where n1: "emitted w1 = emitted w @ n1" "\<forall>e \<in> set n1. neutral e"
    using update_attachments_neutral [of env w tid d] u by auto
  show ?thesis
  proof (cases e1)
    case (Some e)
    then have "process_input_setup env w ui tn d = (w1, Some e)"
      using True u by (simp add: process_input_setup_def tid_def)
    then show ?thesis using n1 by (intro exI [of _ n1]) simp
  next
    case None
    obtain w2 e2 where c: "create_thread_message env w1 ui tn d = (w2, e2)"
      by (cases "create_thread_message env w1 ui tn d") auto
    obtain n2 where n2: "emitted w2 = emitted w1 @ n2" "\<forall>e \<in> set n2. neutral e"
      using create_thread_message_neutral [of env w1 ui tn d] c by auto
    show ?thesis
    proof (cases e2)
      case (Some e)
      then have "process_input_setup env w ui tn d = (w2, Some e)"
        using True u None c by (simp add: process_input_setup_def tid_def)
      then show ?thesis using n1 n2 by (intro exI [of _ "n1 @ n2"]) auto
    next
      case e2None: None
      define w3 where "w3 = update_attachments_in_ui_from_thread w2 tid"
      define n3 where "n3 = n1 @ n2 @
          [SetAttachmentsForSelectedThread (get_attachments_of_thread (thread_attachments w2) tid)]"
      have n3: "emitted w3 = emitted w @ n3" "\<forall>e \<in> set n3. neutral e"
        using n1 n2 by (simp_all add: w3_def n3_def update_attachments_in_ui_from_thread_def ball_Un)
      show ?thesis
      proof (cases "retrieve_conversation env (collaborators w3) tn")
        case rNone: None
        then have "process_input_setup env w ui tn d = (w3, Some CollaboratorError)"
          using True u None c e2None
          by (simp add: process_input_setup_def tid_def w3_def Let_def)
        then show ?thesis using n3 by (intro exI [of _ n3]) simp
      next
        case (Some conv)
        then have "process_input_setup env w ui tn d = (update_conversation_messages w3 conv, None)"
          using True u None c e2None
          by (simp add: process_input_setup_def tid_def w3_def Let_def)
        then show ?thesis using n3
          by (intro exI [of _ "n3 @ [ConversationViewClear, ConversationAppendMessages conv]"])
             (simp add: update_conversation_messages_def ball_Un)
      qed
    qed
  qed
qed

lemma process_assistants_log:
  "emitted (fst (process_assistants env w as tn s)) @
     (case snd (process_assistants env w as tn s) of
        None \<Rightarrow> [] | Some (a, e) \<Rightarrow> [ErrorSignal e, StopProcessing a s])
   = emitted w @ processing_log env (collaborators w) as tn s"
proof (induction as arbitrary: w)
  case Nil
  then show ?case by simp
next
  case (Cons a as)
  show ?case
  proof (cases "get_client env (collaborators w) a")
    case None
    let ?w' = "emit (StopProcessing a s) (emit (StartProcessing a s) w)"
    have pa: "process_assistant_input env w a tn s = (?w', None)"
      using None by (simp add: process_assistant_input_def Let_def)
    show ?thesis using pa None Cons.IH [of ?w'] by simp
  next
    case (Some c)
    obtain x err where pm: "process_messages env (collaborators w) a tn = (x, err)"
      by (cases "process_messages env (collaborators w) a tn") auto
    let ?w2 = "emit (ProcessMessages a tn) (emit (StartProcessing a s) w)"
    show ?thesis
    proof (cases err)
      case None
      let ?w' = "emit (StopProcessing a s) (?w2\<lparr>collaborators := x\<rparr>)"
      have pa: "process_assistant_input env w a tn s = (?w', None)"
        using Some pm None by (simp add: process_assistant_input_def Let_def)
      show ?thesis using pa Some pm None Cons.IH [of ?w'] by simp
    next
      case e: (Some e)
      have pa: "process_assistant_input env w a tn s = (?w2\<lparr>collaborators := x\<rparr>, Some e)"
        using Some pm e by (simp add: process_assistant_input_def Let_def)
      show ?thesis using pa Some pm e by simp
    qed
  qed
qed

lemma processing_log_ok:
  "processing_trace_ok None (processing_log env x as tn s) \<and>
   started_assistants (processing_log env x as tn s)
     = stopped_assistants (processing_log env x as tn s) \<and>
   (\<exists>k. started_assistants (processing_log env x as tn s) = take k as \<and> (as \<noteq> [] \<longrightarrow> 0 < k))"
proof (induction as arbitrary: x)
  case Nil
  then show ?case by simp
next
  case (Cons a as)
  show ?case
  proof (cases "get_client env x a")
    case None
    obtain k where "started_assistants (processing_log env x as tn s) = take k as"
      using Cons.IH [of x] by blast
    then have "started_assistants (processing_log env x (a # as) tn s) = take (Suc k) (a # as)"
      using None by simp
    then show ?thesis using None Cons.IH [of x] by (intro conjI exI [of _ "Suc k"]) simp_all
  next
    case (Some c)
    obtain x' err where pm: "process_messages env x a tn = (x', err)"
      by (cases "process_messages env x a tn") auto
    show ?thesis
    proof (cases err)
      case None
      obtain k where "started_assistants (processing_log env x' as tn s) = take k as"
        using Cons.IH [of x'] by blast
      then have "started_assistants (processing_log env x (a # as) tn s) = take (Suc k) (a # as)"
        using Some pm None by simp
      then show ?thesis using Some pm None Cons.IH [of x']
        by (intro conjI exI [of _ "Suc k"]) simp_all
    next
      case e: (Some e)
      then show ?thesis using Some pm
        by (intro conjI exI [of _ "Suc 0"]) simp_all
    qed
  qed
qed

text \<open>
  C3. Let the statements of \<^verbatim>\<open>process_input\<close> before the loop end in the window
  \<open>w0\<close>. When they end normally, \<^verbatim>\<open>process_input\<close> returns normally and adds to
  the log exactly \<open>processing_log\<close>: for every assistant whose input is processed the
  start signal is emitted first, then the run is submitted with
  \<^verbatim>\<open>process_messages\<close>, and the stop signal is emitted after it, also when
  \<^verbatim>\<open>process_messages\<close> raises (then by the handler of \<^verbatim>\<open>except\<close>, after the
  error signal). The assistants that get a start signal are the same, in the same
  order, as those that get a stop signal; they are a prefix of the assistants given,
  with the first one in it; and the signals are in the order of the automaton
  \<open>processing_trace_ok\<close>. When a statement before the loop raises, no input of an
  assistant is processed: the statements before the loop emit neither signal, the
  handler emits the error signal, and \<^verbatim>\<open>process_input\<close> raises
  \<^verbatim>\<open>UnboundLocalError\<close>.
\<close>

theorem processing_signals_emitted:
  assumes "process_input_setup env w user_input thread_name attachments_dicts = (w0, e0)"
      and "r = process_input env w user_input assistants thread_name is_scheduled_task
                 attachments_dicts"
      and "L = processing_log env (collaborators w0) assistants thread_name is_scheduled_task"
  shows "(e0 = None \<longrightarrow> snd r = None \<and> emitted (fst r) = emitted w0 @ L) \<and>
         (\<forall>e. e0 = Some e \<longrightarrow>
            snd r = Some UnboundLocalError \<and> emitted (fst r) = emitted w0 @ [ErrorSignal e]) \<and>
         (\<exists>pre. emitted w0 = emitted w @ pre \<and> (\<forall>x \<in> set pre. neutral x)) \<and>
         processing_trace_ok None L \<and>
         started_assistants L = stopped_assistants L \<and>
         (\<exists>k. started_assistants L = take k assistants \<and> (assistants \<noteq> [] \<longrightarrow> 0 < k))"
proof -
  have body: "process_input_try env w user_input assistants thread_name is_scheduled_task
               attachments_dicts =
     (case e0 of
        Some e \<Rightarrow> (w0, Some (None, e))
      | None \<Rightarrow>
          (case process_assistants env w0 assistants thread_name is_scheduled_task of
             (w5, Some (a, e)) \<Rightarrow> (w5, Some (Some a, e))
           | (w5, None) \<Rightarrow> (w5, None)))"
    using process_input_try_setup
      [of env w user_input assistants thread_name is_scheduled_task attachments_dicts] assms(1)
    by (cases e0) simp_all
  have ok: "snd r = None \<and> emitted (fst r) = emitted w0 @ L" if "e0 = None"
  proof -
    obtain w5 res where pa:
      "process_assistants env w0 assistants thread_name is_scheduled_task = (w5, res)"
      by (cases "process_assistants env w0 assistants thread_name is_scheduled_task") auto
    have lg: "emitted w5 @ (case res of None \<Rightarrow> []
                | Some (a, e) \<Rightarrow> [ErrorSignal e, StopProcessing a is_scheduled_task])
              = emitted w0 @ L"
      using process_assistants_log [of env w0 assistants thread_name is_scheduled_task] pa assms(3)
      by simp
    show ?thesis
    proof (cases res)
      case None
      then show ?thesis using body that pa lg assms(2) by (simp add: process_input_def)
    next
      case (Some ae)
      obtain a e where "ae = (a, e)" by (cases ae) auto
      then show ?thesis using body that pa lg assms(2) Some by (simp add: process_input_def)
    qed
  qed
  have failed: "snd r = Some UnboundLocalError \<and> emitted (fst r) = emitted w0 @ [ErrorSignal e]"
    if "e0 = Some e" for e
    using body that assms(2) by (simp add: process_input_def)
  have pre: "\<exists>pre. emitted w0 = emitted w @ pre \<and> (\<forall>x \<in> set pre. neutral x)"
    using process_input_setup_neutral [of env w user_input thread_name attachments_dicts] assms(1)
    by simp
  show ?thesis
    using ok failed pre
      processing_log_ok [of env "collaborators w0" assistants thread_name is_scheduled_task]
      assms(3)
    by blast
qed

theorem processing_signals_emitted_witness:
  "snd (process_input_setup example_env example_window ''hi'' (Some ''Thread 1'')
          (Some [[''file_id'' \<mapsto> PyStr ''f3'']])) = None \<and>
   snd (process_input example_env example_window ''hi'' [''A'', ''B'', ''C'']
          (Some ''Thread 1'') False (Some [[''file_id'' \<mapsto> PyStr ''f3'']])) = None \<and>
   emitted (fst (process_input example_env example_window ''hi'' [''A'', ''B'', ''C'']
                   (Some ''Thread 1'') False (Some [[''file_id'' \<mapsto> PyStr ''f3'']])))
     = [RemoveAttachmentFromThread ''thread_1'' ''f1'', FilesDelete ''f1'',
        RemoveAttachmentFromThread ''thread_1'' ''f2'',
        CreateThreadMessage ''hi'' (Some ''Thread 1''),
        SetAttachmentsForSelectedThread [\<lparr>file_id = ''f3'', attachment_type = SEARCH_INDEX_INPUT\<rparr>],
        ConversationViewClear,
        ConversationAppendMessages [\<lparr>text_message = Some ''hello'', file_messages = []\<rparr>],
        StartProcessing ''A'' False, ProcessMessages ''A'' (Some ''Thread 1''),
        StopProcessing ''A'' False,
        StartProcessing ''B'' False, ProcessMessages ''B'' (Some ''Thread 1''),
        ErrorSignal CollaboratorError, StopProcessing ''B'' False] \<and>
   processing_log example_env
       (collaborators (fst (process_input_setup example_env example_window ''hi''
          (Some ''Thread 1'') (Some [[''file_id'' \<mapsto> PyStr ''f3'']]))))
       [''A'', ''B'', ''C''] (Some ''Thread 1'') False
     = [StartProcessing ''A'' False, ProcessMessages ''A'' (Some ''Thread 1''),
        StopProcessing ''A'' False,
        StartProcessing ''B'' False, ProcessMessages ''B'' (Some ''Thread 1''),
        ErrorSignal CollaboratorError, StopProcessing ''B'' False] \<and>
   snd (process_input_setup example_env example_window ''hi'' (Some ''Thread 1'') None)
     = Some TypeError \<and>
   process_input example_env example_window ''hi'' [''A'', ''B'', ''C''] (Some ''Thread 1'') False None
     = (emit (ErrorSignal TypeError) example_window, Some UnboundLocalError)"
proof -
  let ?d = "Some [[''file_id'' \<mapsto> PyStr ''f3'']]"
  let ?s = "process_input_setup example_env example_window ''hi'' (Some ''Thread 1'') ?d"
  let ?r = "process_input example_env example_window ''hi'' [''A'', ''B'', ''C'']
              (Some ''Thread 1'') False ?d"
  let ?L = "processing_log example_env (collaborators (fst ?s)) [''A'', ''B'', ''C'']
              (Some ''Thread 1'') False"
  have s_ok: "snd ?s = None"
    by (simp add: example_defs process_input_setup_def update_attachments_from_ui_to_thread_def
          get_attachments_of_thread_def create_thread_message_def
          update_attachments_in_ui_from_thread_def update_conversation_messages_def Let_def)
  have s_log: "emitted (fst ?s)
     = [RemoveAttachmentFromThread ''thread_1'' ''f1'', FilesDelete ''f1'',
        RemoveAttachmentFromThread ''thread_1'' ''f2'',
        CreateThreadMessage ''hi'' (Some ''Thread 1''),
        SetAttachmentsForSelectedThread [\<lparr>file_id = ''f3'', attachment_type = SEARCH_INDEX_INPUT\<rparr>],
        ConversationViewClear,
        ConversationAppendMessages [\<lparr>text_message = Some ''hello'', file_messages = []\<rparr>]]"
    by (simp add: example_defs process_input_setup_def update_attachments_from_ui_to_thread_def
          get_attachments_of_thread_def remove_attachment_from_thread_def
          create_thread_message_def update_attachments_in_ui_from_thread_def
          update_conversation_messages_def Let_def)
  have L: "?L = [StartProcessing ''A'' False, ProcessMessages ''A'' (Some ''Thread 1''),
        StopProcessing ''A'' False,
        StartProcessing ''B'' False, ProcessMessages ''B'' (Some ''Thread 1''),
        ErrorSignal CollaboratorError, StopProcessing ''B'' False]"
    by (simp add: example_env_def)
  have p: "?s = (fst ?s, None)" using s_ok by (metis prod.collapse)
  have r: "snd ?r = None \<and> emitted (fst ?r) = emitted (fst ?s) @ ?L"
    using processing_signals_emitted [OF p refl refl, of "[''A'', ''B'', ''C'']" False] by blast
  let ?s' = "process_input_setup example_env example_window ''hi'' (Some ''Thread 1'') None"
  have s': "?s' = (example_window, Some TypeError)"
    by (simp add: example_defs process_input_setup_def update_attachments_from_ui_to_thread_def
          Let_def)
  have r': "snd (process_input example_env example_window ''hi'' [''A'', ''B'', ''C'']
                   (Some ''Thread 1'') False None) = Some UnboundLocalError \<and>
            emitted (fst (process_input example_env example_window ''hi'' [''A'', ''B'', ''C'']
                   (Some ''Thread 1'') False None))
              = emitted example_window @ [ErrorSignal TypeError]"
    using processing_signals_emitted [OF s' refl refl, of "[''A'', ''B'', ''C'']" False] by blast
  show ?thesis
    using s_ok s_log L r s' r' by (simp add: process_input_without_attachments example_window_def)
qed

section \<open>Properties of the scheduled task bindings\<close>

text \<open>
  None of the methods that process an input touches the bindings or the setting
  \<^verbatim>\<open>use_system_assistant_for_thread_name\<close>.
\<close>

lemma remove_attachments_frame:
  "scheduled_task_threads (fst (remove_attachments env tid as w)) = scheduled_task_threads w \<and>
   use_system_assistant_for_thread_name (fst (remove_attachments env tid as w))
     = use_system_assistant_for_thread_name w"
proof (induction as arbitrary: w)
  case Nil
  then show ?case by simp
next
  case (Cons a as)
  let ?w1 = "emit (RemoveAttachmentFromThread tid (file_id a))
               (w\<lparr>thread_attachments :=
                    remove_attachment_from_thread (thread_attachments w) tid (file_id a)\<rparr>)"
  show ?case
  proof (cases "attachment_type a \<noteq> IMAGE_FILE")
    case True
    obtain x err where fd: "files_delete env (collaborators ?w1) (file_id a) = (x, err)"
      by (cases "files_delete env (collaborators ?w1) (file_id a)") auto
    let ?w2 = "emit (FilesDelete (file_id a)) (?w1\<lparr>collaborators := x\<rparr>)"
    show ?thesis
    proof (cases err)
      case None
      then have step: "remove_attachments env tid (a # as) w = remove_attachments env tid as ?w2"
        using True fd by (simp add: Let_def)
      show ?thesis unfolding step using Cons.IH [of ?w2] by simp
    next
      case (Some e)
      then have "remove_attachments env tid (a # as) w = (?w2, Some e)"
        using True fd by (simp add: Let_def)
      then show ?thesis by simp
    qed
  next
    case False
    have step: "remove_attachments env tid (a # as) w = remove_attachments env tid as ?w1"
      using False by (simp add: Let_def)
    show ?thesis unfolding step using Cons.IH [of ?w1] by simp
  qed
qed

lemma update_attachments_frame:
  "scheduled_task_threads (fst (update_attachments_from_ui_to_thread env w tid d))
     = scheduled_task_threads w \<and>
   use_system_assistant_for_thread_name (fst (update_attachments_from_ui_to_thread env w tid d))
     = use_system_assistant_for_thread_name w"
  using remove_attachments_frame [of env tid _ w]
  by (auto simp: update_attachments_from_ui_to_thread_def split: option.splits sum.splits)

lemma create_thread_message_frame:
  "scheduled_task_threads (fst (create_thread_message env w ui tn d)) = scheduled_task_threads w \<and>
   use_system_assistant_for_thread_name (fst (create_thread_message env w ui tn d))
     = use_system_assistant_for_thread_name w"
  by (auto simp: create_thread_message_def split: option.splits sum.splits prod.splits)

lemma process_assistant_input_frame:
  "scheduled_task_threads (fst (process_assistant_input env w a tn s)) = scheduled_task_threads w \<and>
   use_system_assistant_for_thread_name (fst (process_assistant_input env w a tn s))
     = use_system_assistant_for_thread_name w"
  by (auto simp: process_assistant_input_def Let_def split: option.splits prod.splits)

lemma process_assistants_frame:
  "scheduled_task_threads (fst (process_assistants env w as tn s)) = scheduled_task_threads w \<and>
   use_system_assistant_for_thread_name (fst (process_assistants env w as tn s))
     = use_system_assistant_for_thread_name w"
proof (induction as arbitrary: w)
  case Nil
  then show ?case by simp
next
  case (Cons a as)
  obtain w' err where pa: "process_assistant_input env w a tn s = (w', err)"
    by (cases "process_assistant_input env w a tn s") auto
  then show ?case
    using process_assistant_input_frame [of env w a tn s] Cons.IH [of w']
    by (cases err) auto
qed

lemma process_input_try_frame:
  "scheduled_task_threads (fst (process_input_try env w ui as tn s d)) = scheduled_task_threads w \<and>
   use_system_assistant_for_thread_name (fst (process_input_try env w ui as tn s d))
     = use_system_assistant_for_thread_name w"
proof (cases "thread_client_present w")
  case False
  then show ?thesis by (simp add: process_input_try_def)
next
  case True
  define tid where "tid = get_thread_id_by_name env (collaborators w) tn"
  obtain w1 e1 where u: "update_attachments_from_ui_to_thread env w tid d = (w1, e1)"
    by (cases "update_attachments_from_ui_to_thread env w tid d") auto
  have f1: "scheduled_task_threads w1 = scheduled_task_threads w"
           "use_system_assistant_for_thread_name w1 = use_system_assistant_for_thread_name w"
    using update_attachments_frame [of env w tid d] u by simp_all
  show ?thesis
  proof (cases e1)
    case (Some e)
    then have "process_input_try env w ui as tn s d = (w1, Some (None, e))"
      using True u by (simp add: process_input_try_def tid_def)
    then show ?thesis using f1 by simp
  next
    case None
    obtain w2 e2 where c: "create_thread_message env w1 ui tn d = (w2, e2)"
      by (cases "create_thread_message env w1 ui tn d") auto
    have f2: "scheduled_task_threads w2 = scheduled_task_threads w"
             "use_system_assistant_for_thread_name w2 = use_system_assistant_for_thread_name w"
      using create_thread_message_frame [of env w1 ui tn d] c f1 by simp_all
    show ?thesis
    proof (cases e2)
      case (Some e)
      then have "process_input_try env w ui as tn s d = (w2, Some (None, e))"
        using True u None c by (simp add: process_input_try_def tid_def)
      then show ?thesis using f2 by simp
    next
      case e2None: None
      define w3 where "w3 = update_attachments_in_ui_from_thread w2 tid"
      have f3: "scheduled_task_threads w3 = scheduled_task_threads w"
               "use_system_assistant_for_thread_name w3 = use_system_assistant_for_thread_name w"
        using f2 by (simp_all add: w3_def update_attachments_in_ui_from_thread_def)
      show ?thesis
      proof (cases "retrieve_conversation env (collaborators w3) tn")
        case rNone: None
        then have "process_input_try env w ui as tn s d = (w3, Some (None, CollaboratorError))"
          using True u None c e2None
          by (simp add: process_input_try_def tid_def w3_def Let_def)
        then show ?thesis using f3 by simp
      next
        case (Some conv)
        define w4 where "w4 = update_conversation_messages w3 conv"
        have f4: "scheduled_task_threads w4 = scheduled_task_threads w"
                 "use_system_assistant_for_thread_name w4 = use_system_assistant_for_thread_name w"
          using f3 by (simp_all add: w4_def update_conversation_messages_def)
        have eq: "fst (process_input_try env w ui as tn s d) =
                    fst (process_assistants env w4 as tn s)"
          using True u None c e2None Some
          by (simp add: process_input_try_def tid_def w3_def w4_def Let_def
                split: prod.splits option.splits)
        show ?thesis
          unfolding eq using process_assistants_frame [of env w4 as tn s] f4 by simp
      qed
    qed
  qed
qed

lemma process_input_frame:
  "scheduled_task_threads (fst (process_input env w ui as tn s d)) = scheduled_task_threads w \<and>
   use_system_assistant_for_thread_name (fst (process_input env w ui as tn s d))
     = use_system_assistant_for_thread_name w"
  using process_input_try_frame [of env w ui as tn s d]
  by (auto simp: process_input_def Let_def split: option.splits prod.splits)

lemma update_conversation_title_frame:
  "scheduled_task_threads (fst (update_conversation_title env w text tn s)) = scheduled_task_threads w \<and>
   use_system_assistant_for_thread_name (fst (update_conversation_title env w text tn s))
     = use_system_assistant_for_thread_name w"
proof (cases "has_conversation_title_creator w")
  case False
  then show ?thesis by (simp add: update_conversation_title_def)
next
  case True
  show ?thesis
  proof (cases tn)
    case None
    then show ?thesis using True by (simp add: update_conversation_title_def)
  next
    case (Some t)
    obtain x r where p: "title_creator_process_messages env (collaborators w) (t @ '' '' @ text) = (x, r)"
      by (cases "title_creator_process_messages env (collaborators w) (t @ '' '' @ text)") auto
    show ?thesis
    proof (cases r)
      case None
      then show ?thesis using True Some p by (simp add: update_conversation_title_def)
    next
      case new: (Some new_name)
      obtain x' r' where q: "set_conversation_thread_name env x
             (if s then ''Scheduled_'' @ new_name else new_name) t = (x', r')"
        by (cases "set_conversation_thread_name env x
             (if s then ''Scheduled_'' @ new_name else new_name) t") auto
      show ?thesis
        using True Some p new q
        by (cases r'; cases "thread_client_present w")
           (simp_all add: update_conversation_title_def Let_def)
    qed
  qed
qed

lemma handle_execution_table:
  "use_system_assistant_for_thread_name (fst (handle_execution env w req sid a))
     = use_system_assistant_for_thread_name w \<and>
   (scheduled_task_threads (fst (handle_execution env w req sid a)) = scheduled_task_threads w \<or>
    (\<exists>v. scheduled_task_threads (fst (handle_execution env w req sid a))
            = (scheduled_task_threads w)(sid \<mapsto> v) \<and>
         (\<not> use_system_assistant_for_thread_name w \<longrightarrow>
            v = (case scheduled_task_threads w sid of None \<Rightarrow> None | Some u \<Rightarrow> u))))"
proof -
  define tn where "tn = (case scheduled_task_threads w sid of None \<Rightarrow> None | Some v \<Rightarrow> v)"
  define w1 where "w1 = (if is_thread_selected env (collaborators w) tn
                then emit (AppendConversation ''user'' req ''blue'') w else w)"
  have w1: "scheduled_task_threads w1 = scheduled_task_threads w"
           "use_system_assistant_for_thread_name w1 = use_system_assistant_for_thread_name w"
    by (simp_all add: w1_def)
  show ?thesis
  proof (cases "use_system_assistant_for_thread_name w")
    case False
    have eq: "handle_execution env w req sid a =
                process_input env
                  (w1\<lparr>scheduled_task_threads := (scheduled_task_threads w1)(sid \<mapsto> tn)\<rparr>)
                  req [a] tn True None"
      using False w1 by (simp add: handle_execution_def Let_def tn_def w1_def)
    show ?thesis
      unfolding eq
      using process_input_frame
        [of env "w1\<lparr>scheduled_task_threads := (scheduled_task_threads w1)(sid \<mapsto> tn)\<rparr>"
          req "[a]" tn True None] w1 False
      by (auto simp: tn_def)
  next
    case True
    obtain w2 r where t: "update_conversation_title env w1 req tn True = (w2, r)"
      by (cases "update_conversation_title env w1 req tn True") auto
    have w2: "scheduled_task_threads w2 = scheduled_task_threads w"
             "use_system_assistant_for_thread_name w2 = use_system_assistant_for_thread_name w"
      using update_conversation_title_frame [of env w1 req tn True] t w1 by simp_all
    show ?thesis
    proof (cases r)
      case (Inl e)
      then have "handle_execution env w req sid a = (w2, Some e)"
        using True w1 t by (simp add: handle_execution_def Let_def tn_def w1_def)
      then show ?thesis using w2 by simp
    next
      case (Inr updated)
      define w3 where "w3 = emit (UpdateConversationTitle tn updated) w2"
      have eq: "handle_execution env w req sid a =
                process_input env
                  (w3\<lparr>scheduled_task_threads := (scheduled_task_threads w3)(sid \<mapsto> updated)\<rparr>)
                  req [a] updated True None"
        using True w1 t Inr by (simp add: handle_execution_def Let_def tn_def w1_def w3_def)
      show ?thesis
        unfolding eq
        using process_input_frame
          [of env "w3\<lparr>scheduled_task_threads := (scheduled_task_threads w3)(sid \<mapsto> updated)\<rparr>"
            req "[a]" updated True None] w2 True
        by (auto simp: w3_def)
    qed
  qed
qed




lemma handle_execution_binding:
  "use_system_assistant_for_thread_name (fst (handle_execution env w req sid a))
     = use_system_assistant_for_thread_name w \<and>
   (\<forall>k. k \<noteq> sid \<longrightarrow>
      scheduled_task_threads (fst (handle_execution env w req sid a)) k = scheduled_task_threads w k) \<and>
   (sid \<in> dom (scheduled_task_threads w) \<longrightarrow>
      sid \<in> dom (scheduled_task_threads (fst (handle_execution env w req sid a)))) \<and>
   (sid \<in> dom (scheduled_task_threads w) \<and> \<not> use_system_assistant_for_thread_name w \<longrightarrow>
      scheduled_task_threads (fst (handle_execution env w req sid a)) = scheduled_task_threads w)"
proof -
  let ?t = "scheduled_task_threads w"
  let ?t' = "scheduled_task_threads (fst (handle_execution env w req sid a))"
  from handle_execution_table [of env w req sid a]
  consider (same) "?t' = ?t"
    | (upd) v where "?t' = ?t(sid \<mapsto> v)"
        "\<not> use_system_assistant_for_thread_name w \<longrightarrow>
           v = (case ?t sid of None \<Rightarrow> None | Some u \<Rightarrow> u)"
    by blast
  then have "(\<forall>k. k \<noteq> sid \<longrightarrow> ?t' k = ?t k) \<and> (sid \<in> dom ?t \<longrightarrow> sid \<in> dom ?t') \<and>
             (sid \<in> dom ?t \<and> \<not> use_system_assistant_for_thread_name w \<longrightarrow> ?t' = ?t)"
  proof cases
    case same
    then show ?thesis by simp
  next
    case upd
    have "?t(sid \<mapsto> v) = ?t"
      if bound: "sid \<in> dom ?t" and plain: "\<not> use_system_assistant_for_thread_name w"
    proof -
      obtain u where u: "?t sid = Some u" using bound by (blast dest: domD)
      then have "v = u" using upd(2) plain by simp
      then show ?thesis using u by (simp add: fun_upd_idem)
    qed
    then show ?thesis using upd(1) by auto
  qed
  then show ?thesis using handle_execution_table [of env w req sid a] by blast
qed

lemma handle_executions_binding:
  "use_system_assistant_for_thread_name (fst (handle_executions env w sid a reqs))
     = use_system_assistant_for_thread_name w \<and>
   (\<forall>k. k \<noteq> sid \<longrightarrow>
      scheduled_task_threads (fst (handle_executions env w sid a reqs)) k = scheduled_task_threads w k) \<and>
   (sid \<in> dom (scheduled_task_threads w) \<longrightarrow>
      sid \<in> dom (scheduled_task_threads (fst (handle_executions env w sid a reqs)))) \<and>
   (sid \<in> dom (scheduled_task_threads w) \<and> \<not> use_system_assistant_for_thread_name w \<longrightarrow>
      scheduled_task_threads (fst (handle_executions env w sid a reqs)) = scheduled_task_threads w)"
proof (induction reqs arbitrary: w)
  case Nil
  then show ?case by simp
next
  case (Cons req reqs)
  obtain w' err where h: "handle_execution env w req sid a = (w', err)"
    by (cases "handle_execution env w req sid a") auto
  have b: "use_system_assistant_for_thread_name w' = use_system_assistant_for_thread_name w"
    "\<forall>k. k \<noteq> sid \<longrightarrow> scheduled_task_threads w' k = scheduled_task_threads w k"
    "sid \<in> dom (scheduled_task_threads w) \<longrightarrow> sid \<in> dom (scheduled_task_threads w')"
    "sid \<in> dom (scheduled_task_threads w) \<and> \<not> use_system_assistant_for_thread_name w \<longrightarrow>
       scheduled_task_threads w' = scheduled_task_threads w"
    using handle_execution_binding [of env w req sid a] h by simp_all
  show ?case
  proof (cases err)
    case (Some e)
    then show ?thesis using h b by simp
  next
    case None
    then have step: "handle_executions env w sid a (req # reqs) = handle_executions env w' sid a reqs"
      using h by simp
    show ?thesis unfolding step using Cons.IH [of w'] b by auto
  qed
qed

lemma handle_multi_executions_binding:
  "use_system_assistant_for_thread_name (fst (handle_multi_executions env w sid reqs))
     = use_system_assistant_for_thread_name w \<and>
   (\<forall>k. k \<noteq> sid \<longrightarrow>
      scheduled_task_threads (fst (handle_multi_executions env w sid reqs)) k = scheduled_task_threads w k) \<and>
   (sid \<in> dom (scheduled_task_threads w) \<longrightarrow>
      sid \<in> dom (scheduled_task_threads (fst (handle_multi_executions env w sid reqs)))) \<and>
   (sid \<in> dom (scheduled_task_threads w) \<and> \<not> use_system_assistant_for_thread_name w \<longrightarrow>
      scheduled_task_threads (fst (handle_multi_executions env w sid reqs)) = scheduled_task_threads w)"
proof (induction reqs arbitrary: w)
  case Nil
  then show ?case by simp
next
  case (Cons req reqs)
  show ?case
  proof (cases "req ''assistant''")
    case None
    then show ?thesis by simp
  next
    case (Some a)
    show ?thesis
    proof (cases "req ''task''")
      case None
      then show ?thesis using Some by simp
    next
      case task: (Some tr)
      obtain w' err where h: "handle_execution env w tr sid a = (w', err)"
        by (cases "handle_execution env w tr sid a") auto
      have b: "use_system_assistant_for_thread_name w' = use_system_assistant_for_thread_name w"
        "\<forall>k. k \<noteq> sid \<longrightarrow> scheduled_task_threads w' k = scheduled_task_threads w k"
        "sid \<in> dom (scheduled_task_threads w) \<longrightarrow> sid \<in> dom (scheduled_task_threads w')"
        "sid \<in> dom (scheduled_task_threads w) \<and> \<not> use_system_assistant_for_thread_name w \<longrightarrow>
           scheduled_task_threads w' = scheduled_task_threads w"
        using handle_execution_binding [of env w tr sid a] h by simp_all
      show ?thesis
      proof (cases err)
        case (Some e)
        then show ?thesis using h b \<open>req ''assistant'' = Some a\<close> task by simp
      next
        case None
        then have step: "handle_multi_executions env w sid (req # reqs)
                           = handle_multi_executions env w' sid reqs"
          using h \<open>req ''assistant'' = Some a\<close> task by simp
        show ?thesis unfolding step using Cons.IH [of w'] b by auto
      qed
    qed
  qed
qed

lemma on_task_execute_binding:
  "(\<forall>k. k \<noteq> sid \<longrightarrow>
      scheduled_task_threads (fst (on_task_execute env w task sid)) k = scheduled_task_threads w k) \<and>
   (sid \<in> dom (scheduled_task_threads w) \<longrightarrow>
      sid \<in> dom (scheduled_task_threads (fst (on_task_execute env w task sid)))) \<and>
   (sid \<in> dom (scheduled_task_threads w) \<and> \<not> use_system_assistant_for_thread_name w \<longrightarrow>
      scheduled_task_threads (fst (on_task_execute env w task sid)) = scheduled_task_threads w)"
proof (cases task)
  case (BasicTask a req)
  then show ?thesis using handle_execution_binding [of env w req sid a] by simp
next
  case (BatchTask a reqs)
  then show ?thesis using handle_executions_binding [of env w sid a reqs] by simp
next
  case (MultiTask reqs)
  then show ?thesis using handle_multi_executions_binding [of env w sid reqs] by simp
next
  case OtherTask
  then show ?thesis by simp
qed

lemma on_task_execute_dom:
  "dom (scheduled_task_threads w) \<subseteq> dom (scheduled_task_threads (fst (on_task_execute env w task sid)))"
proof
  fix k assume k: "k \<in> dom (scheduled_task_threads w)"
  show "k \<in> dom (scheduled_task_threads (fst (on_task_execute env w task sid)))"
  proof (cases "k = sid")
    case True
    then show ?thesis using on_task_execute_binding [of sid env w task] k by blast
  next
    case False
    then have "scheduled_task_threads (fst (on_task_execute env w task sid)) k
                 = scheduled_task_threads w k"
      using on_task_execute_binding [of sid env w task] by blast
    then show ?thesis using k by (auto simp: dom_def)
  qed
qed

lemma on_task_started_dom:
  "dom (scheduled_task_threads w) \<subseteq> dom (scheduled_task_threads (fst (on_task_started env w task sid)))"
  by (auto simp: on_task_started_def setup_conversation_thread_def split: prod.splits sum.splits option.splits if_splits)

text \<open>
  C9. The binding of a schedule id is created by \<^verbatim>\<open>on_task_started\<close>, the first
  callback of the task's execution, when the id has no binding yet, with the thread
  that is created then; for an id that is bound the callback changes nothing.
  \<^verbatim>\<open>on_task_execute\<close> never deletes a binding and changes no binding of another
  id; when threads are not renamed by the system assistant it leaves the binding of
  its own id as it is, so every occurrence uses the same thread.
  \<^verbatim>\<open>on_task_completed\<close> and \<^verbatim>\<open>on_task_failed\<close> delete the binding of their
  schedule id, and a callback after which a binding is gone is one of these two for
  that id.
\<close>

theorem scheduled_thread_binding_lifecycle:
  "(schedule_id \<notin> dom (scheduled_task_threads w) \<and> thread_client_present w \<and>
    create_conversation_thread env (collaborators w) True = (x, Some thread_name) \<longrightarrow>
      scheduled_task_threads (fst (on_task_started env w task schedule_id))
        = (scheduled_task_threads w)(schedule_id \<mapsto> Some thread_name) \<and>
      snd (on_task_started env w task schedule_id) = None) \<and>
   (schedule_id \<in> dom (scheduled_task_threads w) \<longrightarrow>
      on_task_started env w task schedule_id = (w, None)) \<and>
   dom (scheduled_task_threads w)
     \<subseteq> dom (scheduled_task_threads (fst (on_task_execute env w task schedule_id))) \<and>
   (\<forall>k. k \<noteq> schedule_id \<longrightarrow>
      scheduled_task_threads (fst (on_task_execute env w task schedule_id)) k
        = scheduled_task_threads w k) \<and>
   (schedule_id \<in> dom (scheduled_task_threads w) \<and> \<not> use_system_assistant_for_thread_name w \<longrightarrow>
      scheduled_task_threads (fst (on_task_execute env w task schedule_id))
        = scheduled_task_threads w) \<and>
   scheduled_task_threads (on_task_completed w task schedule_id)
     = (scheduled_task_threads w)(schedule_id := None) \<and>
   scheduled_task_threads (on_task_failed w task schedule_id)
     = (scheduled_task_threads w)(schedule_id := None) \<and>
   (k \<in> dom (scheduled_task_threads w) \<and>
    k \<notin> dom (scheduled_task_threads (fst (task_manager_callback env w c))) \<longrightarrow>
      (\<exists>t. c = TaskCompleted t k \<or> c = TaskFailed t k))"
proof (intro conjI)
  show "schedule_id \<notin> dom (scheduled_task_threads w) \<and> thread_client_present w \<and>
    create_conversation_thread env (collaborators w) True = (x, Some thread_name) \<longrightarrow>
      scheduled_task_threads (fst (on_task_started env w task schedule_id))
        = (scheduled_task_threads w)(schedule_id \<mapsto> Some thread_name) \<and>
      snd (on_task_started env w task schedule_id) = None"
    by (simp add: on_task_started_def setup_conversation_thread_def)
  show "schedule_id \<in> dom (scheduled_task_threads w) \<longrightarrow>
      on_task_started env w task schedule_id = (w, None)"
    by (simp add: on_task_started_def)
  show "dom (scheduled_task_threads w)
     \<subseteq> dom (scheduled_task_threads (fst (on_task_execute env w task schedule_id)))"
    by (rule on_task_execute_dom)
  show "\<forall>k. k \<noteq> schedule_id \<longrightarrow>
      scheduled_task_threads (fst (on_task_execute env w task schedule_id)) k
        = scheduled_task_threads w k"
    using on_task_execute_binding [of schedule_id env w task] by blast
  show "schedule_id \<in> dom (scheduled_task_threads w) \<and> \<not> use_system_assistant_for_thread_name w \<longrightarrow>
      scheduled_task_threads (fst (on_task_execute env w task schedule_id))
        = scheduled_task_threads w"
    using on_task_execute_binding [of schedule_id env w task] by blast
  have cleanup: "scheduled_task_threads (cleanup_scheduled_thread w schedule_id)
     = (scheduled_task_threads w)(schedule_id := None)"
    by (auto simp: cleanup_scheduled_thread_def fun_upd_idem_iff)
  show "scheduled_task_threads (on_task_completed w task schedule_id)
     = (scheduled_task_threads w)(schedule_id := None)"
    using cleanup by (simp add: on_task_completed_def)
  show "scheduled_task_threads (on_task_failed w task schedule_id)
     = (scheduled_task_threads w)(schedule_id := None)"
    using cleanup by (simp add: on_task_failed_def)
  show "k \<in> dom (scheduled_task_threads w) \<and>
    k \<notin> dom (scheduled_task_threads (fst (task_manager_callback env w c))) \<longrightarrow>
      (\<exists>t. c = TaskCompleted t k \<or> c = TaskFailed t k)"
  proof
    assume a: "k \<in> dom (scheduled_task_threads w) \<and>
      k \<notin> dom (scheduled_task_threads (fst (task_manager_callback env w c)))"
    show "\<exists>t. c = TaskCompleted t k \<or> c = TaskFailed t k"
    proof (cases c)
      case (TaskStarted t sid)
      then show ?thesis using a on_task_started_dom [of w env t sid] by auto
    next
      case (TaskExecute t sid)
      then show ?thesis using a on_task_execute_dom [of w env t sid] by auto
    next
      case (TaskCompleted t sid)
      then show ?thesis using a
        by (cases "k = sid")
           (auto simp: on_task_completed_def cleanup_scheduled_thread_def split: if_splits)
    next
      case (TaskFailed t sid)
      then show ?thesis using a
        by (cases "k = sid")
           (auto simp: on_task_failed_def cleanup_scheduled_thread_def split: if_splits)
    qed
  qed
qed

theorem scheduled_thread_binding_lifecycle_witness:
  "''s1'' \<notin> dom (scheduled_task_threads example_window) \<and>
   thread_client_present example_window \<and>
   create_conversation_thread example_env (collaborators example_window) True
     = ([], Some ''Scheduled thread'') \<and>
   scheduled_task_threads
     (fst (on_task_started example_env example_window (BasicTask ''A'' ''do it'') ''s1''))
     = (scheduled_task_threads example_window)(''s1'' \<mapsto> Some ''Scheduled thread'') \<and>
   ''s1'' \<in> dom (scheduled_task_threads
     (fst (on_task_started example_env example_window (BasicTask ''A'' ''do it'') ''s1''))) \<and>
   \<not> use_system_assistant_for_thread_name
     (fst (on_task_started example_env example_window (BasicTask ''A'' ''do it'') ''s1'')) \<and>
   scheduled_task_threads
     (fst (on_task_execute example_env
        (fst (on_task_started example_env example_window (BasicTask ''A'' ''do it'') ''s1''))
        (BatchTask ''A'' [''do it'', ''again'']) ''s1''))
     = scheduled_task_threads
         (fst (on_task_started example_env example_window (BasicTask ''A'' ''do it'') ''s1'')) \<and>
   scheduled_task_threads
     (on_task_completed
        (fst (on_task_started example_env example_window (BasicTask ''A'' ''do it'') ''s1''))
        (BasicTask ''A'' ''do it'') ''s1'') ''s1'' = None"
proof -
  let ?w1 = "fst (on_task_started example_env example_window (BasicTask ''A'' ''do it'') ''s1'')"
  have a: "''s1'' \<notin> dom (scheduled_task_threads example_window)"
          "thread_client_present example_window"
          "create_conversation_thread example_env (collaborators example_window) True
             = ([], Some ''Scheduled thread'')"
    by (simp_all add: example_env_def example_window_def)
  have b: "scheduled_task_threads ?w1
             = (scheduled_task_threads example_window)(''s1'' \<mapsto> Some ''Scheduled thread'')"
    using a scheduled_thread_binding_lifecycle
      [of "''s1''" example_window example_env "[]" "''Scheduled thread''" "BasicTask ''A'' ''do it''"]
    by blast
  have c: "''s1'' \<in> dom (scheduled_task_threads ?w1)" using b by simp
  have d: "\<not> use_system_assistant_for_thread_name ?w1"
    by (simp add: on_task_started_def setup_conversation_thread_def example_env_def
          example_window_def)
  have e: "scheduled_task_threads
     (fst (on_task_execute example_env ?w1 (BatchTask ''A'' [''do it'', ''again'']) ''s1''))
     = scheduled_task_threads ?w1"
    using c d scheduled_thread_binding_lifecycle
      [of "''s1''" ?w1 example_env _ _ "BatchTask ''A'' [''do it'', ''again'']"]
    by blast
  have f: "scheduled_task_threads (on_task_completed ?w1 (BasicTask ''A'' ''do it'') ''s1'') ''s1''
             = None"
    using scheduled_thread_binding_lifecycle
      [of "''s1''" ?w1 example_env _ _ "BasicTask ''A'' ''do it''"]
    by simp
  show ?thesis using a b c d e f by simp
qed

section \<open>Properties of the run signals in the window\<close>

text \<open>
  An update for a thread that is not the current conversation thread is dropped: the
  window is left as it is, whatever the status and the message.
\<close>

lemma on_run_update_drops_stale:
  "thread_client_present w \<Longrightarrow>
   \<not> is_current_conversation_thread env (collaborators w) thread_name \<Longrightarrow>
   on_run_update env w assistant_name run_identifier run_status thread_name is_first_message message
     = (w, None)"
  by (simp add: on_run_update_def)

text \<open>
  C6. The claim holds for \<^verbatim>\<open>on_run_update\<close> and fails for \<^verbatim>\<open>on_run_failed\<close>,
  which has no such check: while \<^verbatim>\<open>Thread 1\<close> is displayed, the update of a run
  on \<^verbatim>\<open>Thread 2\<close> is dropped, and the failure of the same run clears the
  conversation view and loads the messages of \<^verbatim>\<open>Thread 2\<close> into it.
\<close>

theorem run_failed_repaints_other_thread:
  "\<not> is_current_conversation_thread example_env (collaborators example_window) ''Thread 2'' \<and>
   on_run_update example_env example_window ''A'' ''run_1'' ''completed'' ''Thread 2'' False None
     = (example_window, None) \<and>
   snd (on_run_failed example_env example_window ''A'' ''run_1'' ''rate_limit_exceeded''
          ''slow down'' ''Thread 2'') = None \<and>
   emitted (fst (on_run_failed example_env example_window ''A'' ''run_1'' ''rate_limit_exceeded''
                   ''slow down'' ''Thread 2''))
     = [DiagnosticsEndRun ''A'' ''run_1''
          ''Run failed due to error code: rate_limit_exceeded, message: slow down'',
        ConversationViewClear,
        ConversationAppendMessages [\<lparr>text_message = Some ''hello'', file_messages = []\<rparr>]]"
  by (simp add: on_run_update_def on_run_failed_def handle_realtime_run_end_def
        is_realtime_assistant_def update_conversation_messages_def example_env_def
        example_window_def Let_def)

end
